theory Spec2Isabelle
  imports Main
begin

text \<open>
  A model of the bash builtin \<^verbatim>\<open>socket\<close> (\<^verbatim>\<open>src/socket_builtin.c\<close> with the helpers of
  \<^verbatim>\<open>include/argparse.h\<close> and \<^verbatim>\<open>include/util.h\<close>): the commands \<^verbatim>\<open>connect\<close>, \<^verbatim>\<open>send\<close>,
  \<^verbatim>\<open>recv\<close>, \<^verbatim>\<open>close\<close> and \<^verbatim>\<open>accept\<close> as functions from the argument vector and the
  state of the world to an exit status and the new state. \<^verbatim>\<open>listen\<close> and the dispatch on
  the verb are not modelled.
\<close>

section \<open>Exit statuses and error numbers\<close>

text \<open>
  The four exit statuses of \<^verbatim>\<open>socket_builtin.c\<close>. They are plain C \<^verbatim>\<open>int\<close>s, and the
  receive helpers return a byte count through the same \<^verbatim>\<open>int\<close>, so they are kept as
  integers here.
\<close>

definition SB_EX_OK :: int where "SB_EX_OK = 0"
definition SB_EX_FAIL :: int where "SB_EX_FAIL = 1"
definition SB_EX_USAGE :: int where "SB_EX_USAGE = 2"
definition SB_EX_TIMEOUT :: int where "SB_EX_TIMEOUT = 124"

text \<open>
  The values of \<^verbatim>\<open>errno\<close> the code tests or produces; \<open>ESUCCESS\<close> is the value 0 and
  \<open>EOTHER n\<close> stands for any code that the source does not look at.
\<close>

datatype errno = ESUCCESS | EINTR | EAGAIN | EBADF | EINVAL | ERANGE | EINPROGRESS
  | ECONNREFUSED | EOTHER nat

text \<open>On Linux \<^verbatim>\<open>EAGAIN == EWOULDBLOCK\<close>, so the macro of \<^verbatim>\<open>util.h\<close> is one comparison.\<close>

definition ERRNO_AGAIN :: "errno \<Rightarrow> bool" where
  "ERRNO_AGAIN e = (e = EAGAIN)"

section \<open>Argument parsing (argparse.h)\<close>

text \<open>
  The limits of the C types on the LP64 targets the Makefile builds for:
  \<^verbatim>\<open>unsigned\<close> and \<^verbatim>\<open>int\<close> have 32 bits, \<^verbatim>\<open>unsigned long\<close> and \<^verbatim>\<open>long\<close> have 64.
\<close>

definition UINT_MAX :: nat where "UINT_MAX = 4294967295"
definition ULONG_MAX :: nat where "ULONG_MAX = 18446744073709551615"
definition INT_MAX :: int where "INT_MAX = 2147483647"
definition INT_MIN :: int where "INT_MIN = - 2147483648"
definition LONG_MAX :: int where "LONG_MAX = 9223372036854775807"
definition LONG_MIN :: int where "LONG_MIN = - 9223372036854775808"

definition arg_is_flag :: "string \<Rightarrow> bool" where
  "arg_is_flag s = (case s of [] \<Rightarrow> False | c # cs \<Rightarrow> c = CHR ''-'' \<and> cs \<noteq> [])"

definition arg_is_ddash :: "string \<Rightarrow> bool" where
  "arg_is_ddash s = (s = ''--'')"

text \<open>
  \<^verbatim>\<open>strtoul\<close> and \<^verbatim>\<open>strtol\<close> with base 10, as the C standard defines them: leading white
  space is skipped, one sign is optional, then the longest run of digits is converted. With
  no digit there is no conversion and the end pointer is the start of the string. A
  magnitude out of range gives the extreme value and sets \<^verbatim>\<open>errno\<close> (the third
  component); a minus sign negates in the return type, so \<^verbatim>\<open>strtoul\<close> wraps modulo
  \<open>2 ^ 64\<close>.
\<close>

definition isspace_c :: "char \<Rightarrow> bool" where
  "isspace_c c = (c \<in> set [CHR '' '', CHR 0x09, CHR 0x0A, CHR 0x0B, CHR 0x0C, CHR 0x0D])"

definition isdigit_c :: "char \<Rightarrow> bool" where
  "isdigit_c c = (c \<in> set ''0123456789'')"

definition digit_val :: "char \<Rightarrow> nat" where
  "digit_val c = of_char c - 48"

fun scan_digits :: "string \<Rightarrow> nat \<Rightarrow> nat \<times> string" where
  "scan_digits [] acc = (acc, [])"
| "scan_digits (c # cs) acc =
     (if isdigit_c c then scan_digits cs (10 * acc + digit_val c) else (acc, c # cs))"

definition scan_sign :: "string \<Rightarrow> bool \<times> string" where
  "scan_sign s = (case s of
       [] \<Rightarrow> (False, [])
     | c # cs \<Rightarrow> if c = CHR ''-'' then (True, cs)
                else if c = CHR ''+'' then (False, cs) else (False, s))"

definition has_digit :: "string \<Rightarrow> bool" where
  "has_digit t = (case t of [] \<Rightarrow> False | c # _ \<Rightarrow> isdigit_c c)"

definition strtoul :: "string \<Rightarrow> nat \<times> string \<times> bool" where
  "strtoul s =
     (let (neg, t) = scan_sign (dropWhile isspace_c s) in
      if \<not> has_digit t then (0, s, False)
      else let (v, rest) = scan_digits t 0 in
        if v > ULONG_MAX then (ULONG_MAX, rest, True)
        else ((if neg then (2 ^ 64 - v) mod 2 ^ 64 else v), rest, False))"

definition strtol :: "string \<Rightarrow> int \<times> string \<times> bool" where
  "strtol s =
     (let (neg, t) = scan_sign (dropWhile isspace_c s) in
      if \<not> has_digit t then (0, s, False)
      else let (v, rest) = scan_digits t 0;
               x = (if neg then - int v else int v) in
        if x > LONG_MAX then (LONG_MAX, rest, True)
        else if x < LONG_MIN then (LONG_MIN, rest, True)
        else (x, rest, False))"

text \<open>The parsers return the error code (\<open>Inl\<close>) or the value stored through \<^verbatim>\<open>out\<close>.\<close>

definition parse_uint :: "string \<Rightarrow> errno + nat" where
  "parse_uint s =
     (if s = [] then Inl EINVAL
      else let (v, end, err) = strtoul s in
        if err \<or> end \<noteq> [] then Inl EINVAL
        else if v > UINT_MAX then Inl ERANGE
        else Inr v)"

definition parse_int :: "string \<Rightarrow> errno + int" where
  "parse_int s =
     (if s = [] then Inl EINVAL
      else let (v, end, err) = strtol s in
        if err \<or> end \<noteq> [] then Inl EINVAL
        else if v > INT_MAX \<or> v < INT_MIN then Inl ERANGE
        else Inr v)"

text \<open>The cast \<^verbatim>\<open>(int)u\<close> of an \<^verbatim>\<open>unsigned\<close>: values from \<open>2 ^ 31\<close> on wrap to negatives.\<close>

definition int_of_unsigned :: "nat \<Rightarrow> int" where
  "int_of_unsigned u = (if u < 2 ^ 31 then int u else int u - 2 ^ 32)"

section \<open>The environment of one command\<close>

text \<open>
  Bytes are C \<^verbatim>\<open>char\<close>s. The operating system is modelled as scripts of answers: each
  \<^verbatim>\<open>poll\<close>, \<^verbatim>\<open>read\<close> and \<^verbatim>\<open>write\<close> takes the next entry of its script. A script
  that has run out means the call never returns, which is the result \<open>None\<close> of every
  operation below; a call that ends the process with a signal (\<^verbatim>\<open>SIGPIPE\<close> on a
  \<^verbatim>\<open>write\<close> to a connection the peer has reset) does not return either. Bytes that a \<^verbatim>\<open>read\<close> delivers but does not take stay at the head of
  the script for the next \<^verbatim>\<open>read\<close>. An accepted connection comes with the answer of
  \<^verbatim>\<open>getnameinfo\<close> for its peer (numeric host and service), if there is one.
\<close>

type_synonym byte = char

datatype pollev = POLLIN | POLLOUT

datatype pollres = PReady | PTimeout | PErr errno
datatype readres = RBytes "byte list" | REof | RErr errno
datatype writeres = WRoom nat | WErr errno
datatype acceptres = AConn int "(string \<times> string) option" | AErr errno

datatype call = CPoll int pollev int | CRead int nat | CWrite int "byte list" | CClose int
  | CSocket | CNonblock int bool | CConnect int | CGetsockopt int | CAccept int

datatype diag = Usage | Msg string | MsgErrno string errno

record world =
  errno_now :: errno
  polls :: "pollres list"
  reads :: "readres list"
  writes :: "writeres list"
  accepts :: "acceptres list"
  wire :: "byte list"
  open_fds :: "int list"
  close_errs :: "(int \<times> errno) list"
  heap_limit :: nat
  vars :: "(string \<times> string) list"
  readonly :: "string list"
  unbindable :: "string list"
  trace :: "call list"
  err_out :: "diag list"

text \<open>
  \<open>wire\<close> collects the bytes the kernel accepted from \<^verbatim>\<open>write\<close>; \<open>trace\<close> lists the
  system calls made; \<open>err_out\<close> is the diagnostic channel (\<^verbatim>\<open>print_usage\<close> and
  \<^verbatim>\<open>builtin_error\<close>); an allocation succeeds when it asks for at most \<open>heap_limit\<close>
  bytes; \<open>vars\<close> holds the shell variables, the latest binding of a name first;
  \<open>readonly\<close> lists the read-only variables and \<open>unbindable\<close> the names for which
  \<^verbatim>\<open>bind_variable\<close> returns \<^verbatim>\<open>NULL\<close>.
\<close>

definition heap_ok :: "world \<Rightarrow> nat \<Rightarrow> bool" where
  "heap_ok w n = (n \<le> heap_limit w)"

definition print_usage :: "world \<Rightarrow> world" where
  "print_usage w = w\<lparr>err_out := err_out w @ [Usage]\<rparr>"

definition builtin_error :: "diag \<Rightarrow> world \<Rightarrow> world" where
  "builtin_error d w = w\<lparr>err_out := err_out w @ [d]\<rparr>"

definition usage_error :: "world \<Rightarrow> (int \<times> world) option" where
  "usage_error w = Some (SB_EX_USAGE, print_usage w)"

subsection \<open>System calls\<close>

text \<open>
  \<^verbatim>\<open>poll\<close> with a negative timeout waits without limit, so a quiet period
  (\<open>PTimeout\<close>) only ends the call when the timeout is not negative.
\<close>

fun poll_script :: "int \<Rightarrow> pollres list \<Rightarrow> (pollres \<times> pollres list) option" where
  "poll_script t [] = None"
| "poll_script t (PTimeout # ps) = (if t < 0 then poll_script t ps else Some (PTimeout, ps))"
| "poll_script t (p # ps) = Some (p, ps)"

definition sys_poll :: "int \<Rightarrow> pollev \<Rightarrow> int \<Rightarrow> world \<Rightarrow> (int \<times> world) option" where
  "sys_poll fd ev t w =
     (case poll_script t (polls w) of
        None \<Rightarrow> None
      | Some (p, ps) \<Rightarrow>
          let w1 = w\<lparr>polls := ps, trace := trace w @ [CPoll fd ev t]\<rparr> in
          Some (case p of
                  PReady \<Rightarrow> (1, w1)
                | PTimeout \<Rightarrow> (0, w1)
                | PErr e \<Rightarrow> (- 1, w1\<lparr>errno_now := e\<rparr>)))"

text \<open>\<^verbatim>\<open>read(fd, buf, n)\<close>: the number of bytes read (0 at end of file, -1 on error) and the bytes.\<close>

definition sys_read :: "int \<Rightarrow> nat \<Rightarrow> world \<Rightarrow> ((int \<times> byte list) \<times> world) option" where
  "sys_read fd n w =
     (case reads w of
        [] \<Rightarrow> None
      | REof # rs \<Rightarrow> Some ((0, []), w\<lparr>trace := trace w @ [CRead fd n]\<rparr>)
      | RErr e # rs \<Rightarrow>
          Some ((- 1, []), w\<lparr>reads := rs, errno_now := e, trace := trace w @ [CRead fd n]\<rparr>)
      | RBytes bs # rs \<Rightarrow>
          Some ((int (length (take n bs)), take n bs),
                w\<lparr>reads := (if drop n bs = [] then rs else RBytes (drop n bs) # rs),
                  trace := trace w @ [CRead fd n]\<rparr>))"

text \<open>\<^verbatim>\<open>write(fd, p, left)\<close> with \<open>left = length p\<close>: the kernel takes at most what it has room for.\<close>

definition sys_write :: "int \<Rightarrow> byte list \<Rightarrow> world \<Rightarrow> (int \<times> world) option" where
  "sys_write fd p w =
     (case writes w of
        [] \<Rightarrow> None
      | WErr e # ws \<Rightarrow>
          Some (- 1, w\<lparr>writes := ws, errno_now := e, trace := trace w @ [CWrite fd p]\<rparr>)
      | WRoom k # ws \<Rightarrow>
          Some (int (min k (length p)),
                w\<lparr>writes := ws, wire := wire w @ take (min k (length p)) p,
                  trace := trace w @ [CWrite fd p]\<rparr>))"

section \<open>Helpers of util.h\<close>

lemma poll_script_shorter:
  "poll_script t ps = Some (p, ps') \<Longrightarrow> length ps' < length ps"
  by (induction t ps rule: poll_script.induct) (auto split: if_splits)

lemma sys_poll_shorter:
  "sys_poll fd ev t w = Some (r, w') \<Longrightarrow> length (polls w') < length (polls w)"
  using poll_script_shorter [of t "polls w"]
  by (auto simp: sys_poll_def Let_def split: option.splits pollres.splits)

function poll_wait :: "int \<Rightarrow> pollev \<Rightarrow> int \<Rightarrow> world \<Rightarrow> (int \<times> world) option" where
  "poll_wait fd ev t w =
     (case sys_poll fd ev t w of
        None \<Rightarrow> None
      | Some (r, w') \<Rightarrow>
          if r < 0 \<and> errno_now w' = EINTR then poll_wait fd ev t w' else Some (r, w'))"
  by pat_completeness auto
termination
  by (relation "measure (\<lambda>(fd, ev, t, w). length (polls w))") (auto dest: sys_poll_shorter)

declare poll_wait.simps [simp del]

lemma sys_poll_writes:
  "sys_poll fd ev t w = Some (r, w') \<Longrightarrow> writes w' = writes w \<and> wire w' = wire w"
  by (auto simp: sys_poll_def Let_def split: option.splits pollres.splits)

lemma poll_wait_writes:
  "poll_wait fd ev t w = Some (r, w') \<Longrightarrow> writes w' = writes w \<and> wire w' = wire w"
proof (induction fd ev t w rule: poll_wait.induct)
  case (1 fd ev t w)
  from "1.prems" obtain r1 w1 where s: "sys_poll fd ev t w = Some (r1, w1)"
    by (subst (asm) poll_wait.simps) (auto split: option.splits)
  show ?case
  proof (cases "r1 < 0 \<and> errno_now w1 = EINTR")
    case True
    with s "1.prems" have "poll_wait fd ev t w1 = Some (r, w')"
      by (subst (asm) poll_wait.simps) simp
    with "1.IH" [OF s refl True] sys_poll_writes [OF s] show ?thesis by simp
  next
    case False
    with s "1.prems" have "w' = w1"
      by (subst (asm) poll_wait.simps) auto
    with sys_poll_writes [OF s] show ?thesis by simp
  qed
qed

lemma sys_write_shorter:
  "sys_write fd p w = Some (r, w') \<Longrightarrow> length (writes w') < length (writes w)"
  by (auto simp: sys_write_def split: list.splits writeres.splits)

text \<open>
  The loop of \<^verbatim>\<open>write_full_poll\<close>: \<open>p\<close> is the part of the buffer from the cursor on, so
  \<^verbatim>\<open>left\<close> is its length. The result tells whether the loop ran to its end; then
  \<^verbatim>\<open>write_full_poll\<close> returns \<^verbatim>\<open>(ssize_t)len\<close>, which is the length itself for every buffer
  that fits in memory.
\<close>

function write_loop :: "int \<Rightarrow> byte list \<Rightarrow> world \<Rightarrow> (bool \<times> world) option" where
  "write_loop fd p w =
     (if p = [] then Some (True, w)
      else case sys_write fd p w of
        None \<Rightarrow> None
      | Some (r, w1) \<Rightarrow>
          if r > 0 then write_loop fd (drop (nat r) p) w1
          else if r < 0 \<and> errno_now w1 = EINTR then write_loop fd p w1
          else if r < 0 \<and> ERRNO_AGAIN (errno_now w1) then
            (case poll_wait fd POLLOUT (- 1) w1 of
               None \<Rightarrow> None
             | Some (pr, w2) \<Rightarrow> if pr \<le> 0 then Some (False, w2) else write_loop fd p w2)
          else Some (False, w1))"
  by pat_completeness auto
termination
  by (relation "measure (\<lambda>(fd, p, w). length (writes w))")
     (auto dest: sys_write_shorter dest!: poll_wait_writes)

declare write_loop.simps [simp del]

definition write_full_poll :: "int \<Rightarrow> byte list \<Rightarrow> world \<Rightarrow> (int \<times> world) option" where
  "write_full_poll fd buf w =
     (case write_loop fd buf w of
        None \<Rightarrow> None
      | Some (done, w') \<Rightarrow> Some (if done then int (length buf) else - 1, w'))"

text \<open>
  \<^verbatim>\<open>b64_decode_concat\<close>: the table \<^verbatim>\<open>T\<close> gives every character outside the alphabet the
  value 0; \<^verbatim>\<open>outcap\<close> is computed in \<^verbatim>\<open>size_t\<close> (64 bits) and may wrap; a character
  read at the terminating NUL of \<^verbatim>\<open>cat\<close> (an odd number of characters) is rejected by
  the table test.
\<close>

fun pos_of :: "char \<Rightarrow> string \<Rightarrow> nat \<Rightarrow> nat" where
  "pos_of c [] k = 0"
| "pos_of c (x # xs) k = (if x = c then k else pos_of c xs (Suc k))"

definition b64_T :: "char \<Rightarrow> nat" where
  "b64_T c = pos_of c ''ABCDEFGHIJKLMNOPQRSTUVWXYZabcdefghijklmnopqrstuvwxyz0123456789+/'' 0"

definition b64_emit :: "nat \<Rightarrow> byte list \<Rightarrow> char \<Rightarrow> char \<Rightarrow> char \<Rightarrow> char \<Rightarrow> byte list" where
  "b64_emit outcap out c0 c1 c2 c3 =
     (let v2 = (if c2 = CHR ''='' then 0 else b64_T c2);
          v3 = (if c3 = CHR ''='' then 0 else b64_T c3);
          triple = b64_T c0 * 262144 + b64_T c1 * 4096 + v2 * 64 + v3;
          o1 = (if length out < outcap then out @ [char_of (triple div 65536 mod 256)] else out);
          o2 = (if c2 \<noteq> CHR ''='' \<and> length o1 < outcap
                then o1 @ [char_of (triple div 256 mod 256)] else o1)
      in if c3 \<noteq> CHR ''='' \<and> length o2 < outcap then o2 @ [char_of (triple mod 256)] else o2)"

fun b64_loop :: "nat \<Rightarrow> byte list \<Rightarrow> string \<Rightarrow> byte list option" where
  "b64_loop outcap out [] = Some out"
| "b64_loop outcap out [c0] = (if c0 = CHR ''='' then Some out else None)"
| "b64_loop outcap out (c0 # c1 # r) =
     (if c0 = CHR ''='' then Some out
      else if c1 = CHR ''='' then Some out
      else let c2 = (case r of [] \<Rightarrow> CHR ''='' | x # _ \<Rightarrow> x);
               c3 = (case drop 1 r of [] \<Rightarrow> CHR ''='' | x # _ \<Rightarrow> x) in
        if b64_T c0 = 0 \<and> c0 \<noteq> CHR ''A'' then None
        else if b64_T c1 = 0 \<and> c1 \<noteq> CHR ''A'' then None
        else if c3 = CHR ''='' \<or> c2 = CHR ''='' then Some (b64_emit outcap out c0 c1 c2 c3)
        else b64_loop outcap (b64_emit outcap out c0 c1 c2 c3) (drop 2 r))"

definition b64_decode_concat :: "string list \<Rightarrow> world \<Rightarrow> byte list option" where
  "b64_decode_concat args w =
     (let cat = concat args; n = length cat in
      if \<not> heap_ok w (n + 1) then None
      else let pad = (if n \<ge> 1 \<and> cat ! (n - 1) = CHR ''='' then 1 else 0)
                   + (if n \<ge> 2 \<and> cat ! (n - 2) = CHR ''='' then 1 else (0::nat));
               outcap = ((n div 4) * 3 + 2 ^ 64 - pad) mod 2 ^ 64 in
        if \<not> heap_ok w (if outcap = 0 then 1 else outcap) then None
        else b64_loop outcap [] cat)"

section \<open>Shell variables\<close>

text \<open>
  \<^verbatim>\<open>bind_variable\<close> belongs to bash and is not part of the repository; it is modelled
  from bash's behaviour. For a read-only variable it prints its own diagnostic and
  returns the variable unchanged, which is not \<^verbatim>\<open>NULL\<close>: \<^verbatim>\<open>set_sh_var\<close> then returns 0
  although nothing was assigned. Only a \<^verbatim>\<open>NULL\<close> result makes \<^verbatim>\<open>set_sh_var\<close> print its
  message and return -1.
\<close>

definition set_sh_var :: "string \<Rightarrow> string \<Rightarrow> world \<Rightarrow> int \<times> world" where
  "set_sh_var name val w =
     (if name \<in> set (unbindable w)
      then (- 1, builtin_error (Msg ''failed to set variable'') w)
      else if name \<in> set (readonly w)
      then (0, builtin_error (Msg ''readonly variable'') w)
      else (0, w\<lparr>vars := (name, val) # vars w\<rparr>))"

text \<open>\<^verbatim>\<open>snprintf(buf, sizeof buf, "%d", v)\<close>: the decimal digits of an \<^verbatim>\<open>int\<close>.\<close>

fun dec_nat :: "nat \<Rightarrow> string" where
  "dec_nat n = (if n < 10 then [''0123456789'' ! n]
     else dec_nat (n div 10) @ [''0123456789'' ! (n mod 10)])"

declare dec_nat.simps [simp del]

definition dec_int :: "int \<Rightarrow> string" where
  "dec_int v = (if v < 0 then CHR ''-'' # dec_nat (nat (- v)) else dec_nat (nat v))"

definition set_sh_var_int :: "string \<Rightarrow> int \<Rightarrow> world \<Rightarrow> int \<times> world" where
  "set_sh_var_int name v w = set_sh_var name (dec_int v) w"

section \<open>send\<close>

text \<open>The data arguments are joined with single spaces (the non-base64 branch of \<^verbatim>\<open>cmd_send\<close>).\<close>

fun join_args :: "string list \<Rightarrow> string" where
  "join_args [] = []"
| "join_args [a] = a"
| "join_args (a # as) = a @ CHR '' '' # join_args as"

fun send_flags :: "string list \<Rightarrow> bool \<Rightarrow> bool \<times> string list" where
  "send_flags [] use_b64 = (use_b64, [])"
| "send_flags (a # as) use_b64 =
     (if arg_is_flag a \<and> a = ''-b64'' then send_flags as True else (use_b64, a # as))"

text \<open>
  Both branches of \<^verbatim>\<open>cmd_send\<close> end alike: the buffer goes to \<^verbatim>\<open>write_full_poll\<close>, and
  only the sign of its result reaches the caller.
\<close>

definition send_buffer :: "int \<Rightarrow> byte list \<Rightarrow> world \<Rightarrow> (int \<times> world) option" where
  "send_buffer fd buf w =
     (case write_full_poll fd buf w of
        None \<Rightarrow> None
      | Some (wr, w1) \<Rightarrow>
          if wr < 0 then Some (SB_EX_FAIL, builtin_error (MsgErrno ''send'' (errno_now w1)) w1)
          else Some (SB_EX_OK, w1))"

text \<open>A successful \<^verbatim>\<open>parse_int\<close> leaves \<^verbatim>\<open>errno = 0\<close>.\<close>

definition cmd_send :: "string list \<Rightarrow> world \<Rightarrow> (int \<times> world) option" where
  "cmd_send argv w =
     (let (use_b64, args) = send_flags argv False in
      case args of
        [] \<Rightarrow> usage_error w
      | [a] \<Rightarrow> usage_error w
      | a # b # rest \<Rightarrow>
          (case parse_int a of
             Inl e \<Rightarrow> usage_error w
           | Inr fd \<Rightarrow>
               if fd < 0 then usage_error w
               else let w0 = w\<lparr>errno_now := ESUCCESS\<rparr>;
                        data = (if arg_is_ddash b then rest else b # rest) in
                 if data = [] then usage_error w0
                 else if use_b64 then
                   (case b64_decode_concat data w0 of
                      None \<Rightarrow> Some (SB_EX_FAIL, builtin_error (Msg ''send: base64 decode failed'') w0)
                    | Some buf \<Rightarrow> send_buffer fd buf w0)
                 else if \<not> heap_ok w0 (if join_args data = [] then 1 else length (join_args data))
                   then Some (SB_EX_FAIL, builtin_error (Msg ''send: out of memory'') w0)
                 else send_buffer fd (join_args data) w0))"

section \<open>recv\<close>

text \<open>
  Lengths and capacities are \<^verbatim>\<open>size_t\<close> (64 bits); the helpers return the length through
  the cast \<^verbatim>\<open>(int)len\<close>, which keeps the low 32 bits as a signed value.
\<close>

definition size_t :: "nat \<Rightarrow> nat" where
  "size_t n = n mod 2 ^ 64"

definition int_of_size :: "nat \<Rightarrow> int" where
  "int_of_size n = (let m = n mod 2 ^ 32 in if m < 2 ^ 31 then int m else int m - 2 ^ 32)"

lemma poll_wait_shorter:
  "poll_wait fd ev t w = Some (r, w') \<Longrightarrow> length (polls w') < length (polls w)"
proof (induction fd ev t w rule: poll_wait.induct)
  case (1 fd ev t w)
  from "1.prems" obtain r1 w1 where s: "sys_poll fd ev t w = Some (r1, w1)"
    by (subst (asm) poll_wait.simps) (auto split: option.splits)
  show ?case
  proof (cases "r1 < 0 \<and> errno_now w1 = EINTR")
    case True
    with s "1.prems" have "poll_wait fd ev t w1 = Some (r, w')"
      by (subst (asm) poll_wait.simps) simp
    with "1.IH" [OF s refl True] sys_poll_shorter [OF s] show ?thesis by simp
  next
    case False
    with s "1.prems" have "w' = w1"
      by (subst (asm) poll_wait.simps) auto
    with sys_poll_shorter [OF s] show ?thesis by simp
  qed
qed

lemma sys_read_polls:
  "sys_read fd n w = Some (x, w') \<Longrightarrow> polls w' = polls w"
  by (auto simp: sys_read_def split: list.splits readres.splits)

text \<open>
  The result of a receive helper: the returned \<^verbatim>\<open>int\<close> and what it stored through
  \<^verbatim>\<open>out\<close> (\<open>None\<close> when it returned without storing, so that the caller's pointer
  is still \<^verbatim>\<open>NULL\<close>). A buffer is the list of its first \<^verbatim>\<open>len\<close> bytes.
\<close>

type_synonym helper_result = "(int \<times> byte list option) \<times> world"

datatype copied = Filled "byte list" nat | Line "byte list" | NoMem

text \<open>
  The inner loop of \<^verbatim>\<open>read_line\<close> over the bytes of \<^verbatim>\<open>tmp\<close>: it stops at the cap, grows
  the buffer, appends the byte and returns at a newline; the bytes of \<^verbatim>\<open>tmp\<close> after that
  point are not looked at again.
\<close>

fun line_copy :: "world \<Rightarrow> nat \<Rightarrow> byte list \<Rightarrow> byte list \<Rightarrow> nat \<Rightarrow> copied" where
  "line_copy w mx [] buf cap = Filled buf cap"
| "line_copy w mx (c # cs) buf cap =
     (if mx \<noteq> 0 \<and> length buf \<ge> mx then Filled buf cap
      else let ncap = (if mx \<noteq> 0 \<and> size_t (cap * 2) > mx then mx else size_t (cap * 2));
               grow = (length buf + 1 > cap) in
        if grow \<and> \<not> heap_ok w (if ncap = 0 then 1 else ncap) then NoMem
        else if c = CHR 0x0A then Line (buf @ [c])
        else line_copy w mx cs (buf @ [c]) (if grow then ncap else cap))"

function read_line_loop ::
  "int \<Rightarrow> nat \<Rightarrow> int \<Rightarrow> byte list \<Rightarrow> nat \<Rightarrow> world \<Rightarrow> helper_result option" where
  "read_line_loop fd mx t buf cap w =
     (if mx \<noteq> 0 \<and> length buf \<ge> mx then Some ((int_of_size (length buf), Some buf), w)
      else case poll_wait fd POLLIN t w of
        None \<Rightarrow> None
      | Some (pr, w1) \<Rightarrow>
          if pr = 0 \<and> length buf = 0 then Some ((SB_EX_TIMEOUT, None), w1)
          else if pr = 0 \<and> length buf > 0 then Some ((int_of_size (length buf), Some buf), w1)
          else if pr < 0 then
            Some ((SB_EX_FAIL, None), builtin_error (MsgErrno ''recv: poll'' (errno_now w1)) w1)
          else case sys_read fd 1024 w1 of
            None \<Rightarrow> None
          | Some ((r, tmp), w2) \<Rightarrow>
              if r < 0 \<and> errno_now w2 = EINTR then read_line_loop fd mx t buf cap w2
              else if r < 0 \<and> ERRNO_AGAIN (errno_now w2) then read_line_loop fd mx t buf cap w2
              else if r < 0 then
                Some ((SB_EX_FAIL, None), builtin_error (MsgErrno ''recv'' (errno_now w2)) w2)
              else if r = 0 then Some ((int_of_size (length buf), Some buf), w2)
              else case line_copy w2 mx tmp buf cap of
                NoMem \<Rightarrow> Some ((SB_EX_FAIL, None), builtin_error (Msg ''recv: OOM'') w2)
              | Line b \<Rightarrow> Some ((int_of_size (length b), Some b), w2)
              | Filled b c \<Rightarrow> read_line_loop fd mx t b c w2)"
  by pat_completeness auto
termination
  by (relation "measure (\<lambda>(fd, mx, t, buf, cap, w). length (polls w))")
     (auto dest!: poll_wait_shorter sys_read_polls)

declare read_line_loop.simps [simp del]

definition read_line :: "int \<Rightarrow> nat \<Rightarrow> int \<Rightarrow> world \<Rightarrow> helper_result option" where
  "read_line fd mx t w =
     (let cap = (if mx \<noteq> 0 \<and> mx < 4096 then mx else 4096) in
      if \<not> heap_ok w (if cap = 0 then 1 else cap)
      then Some ((SB_EX_FAIL, None), builtin_error (Msg ''recv: OOM'') w)
      else read_line_loop fd mx t [] cap w)"

function read_bytes_loop ::
  "int \<Rightarrow> nat \<Rightarrow> int \<Rightarrow> byte list \<Rightarrow> nat \<Rightarrow> world \<Rightarrow> helper_result option" where
  "read_bytes_loop fd need t buf cap w =
     (if need \<noteq> 0 \<and> length buf \<ge> need then Some ((int_of_size (length buf), Some buf), w)
      else case poll_wait fd POLLIN t w of
        None \<Rightarrow> None
      | Some (pr, w1) \<Rightarrow>
          if pr = 0 \<and> length buf = 0 then Some ((SB_EX_TIMEOUT, None), w1)
          else if pr = 0 \<and> length buf > 0 then Some ((int_of_size (length buf), Some buf), w1)
          else if pr < 0 then
            Some ((SB_EX_FAIL, None), builtin_error (MsgErrno ''recv: poll'' (errno_now w1)) w1)
          else case sys_read fd (if need \<noteq> 0 then need - length buf else cap - length buf) w1 of
            None \<Rightarrow> None
          | Some ((r, got), w2) \<Rightarrow>
              if r < 0 \<and> errno_now w2 = EINTR then read_bytes_loop fd need t buf cap w2
              else if r < 0 \<and> ERRNO_AGAIN (errno_now w2) then read_bytes_loop fd need t buf cap w2
              else if r < 0 then
                Some ((SB_EX_FAIL, None), builtin_error (MsgErrno ''recv'' (errno_now w2)) w2)
              else if r = 0 then Some ((int_of_size (length buf), Some buf), w2)
              else if need = 0 \<and> length (buf @ got) = cap then
                (if \<not> heap_ok w2 (if size_t (cap * 2) = 0 then 1 else size_t (cap * 2))
                 then Some ((SB_EX_FAIL, None), builtin_error (Msg ''recv: OOM'') w2)
                 else read_bytes_loop fd need t (buf @ got) (size_t (cap * 2)) w2)
              else read_bytes_loop fd need t (buf @ got) cap w2)"
  by pat_completeness auto
termination
  by (relation "measure (\<lambda>(fd, need, t, buf, cap, w). length (polls w))")
     (auto dest!: poll_wait_shorter sys_read_polls)

declare read_bytes_loop.simps [simp del]

definition read_bytes :: "int \<Rightarrow> nat \<Rightarrow> int \<Rightarrow> world \<Rightarrow> helper_result option" where
  "read_bytes fd need t w =
     (let cap = (if need \<noteq> 0 then need else 4096) in
      if \<not> heap_ok w (if cap = 0 then 1 else cap)
      then Some ((SB_EX_FAIL, None), builtin_error (Msg ''recv: OOM'') w)
      else read_bytes_loop fd need t [] cap w)"

function read_all_loop ::
  "int \<Rightarrow> nat \<Rightarrow> int \<Rightarrow> byte list \<Rightarrow> nat \<Rightarrow> world \<Rightarrow> helper_result option" where
  "read_all_loop fd mx t buf cap w =
     (case poll_wait fd POLLIN t w of
        None \<Rightarrow> None
      | Some (pr, w1) \<Rightarrow>
          if pr = 0 \<and> length buf = 0 then Some ((SB_EX_TIMEOUT, None), w1)
          else if pr = 0 \<and> length buf > 0 then Some ((int_of_size (length buf), Some buf), w1)
          else if pr < 0 then
            Some ((SB_EX_FAIL, None), builtin_error (MsgErrno ''recv: poll'' (errno_now w1)) w1)
          else case sys_read fd (cap - length buf) w1 of
            None \<Rightarrow> None
          | Some ((r, got), w2) \<Rightarrow>
              if r < 0 \<and> errno_now w2 = EINTR then read_all_loop fd mx t buf cap w2
              else if r < 0 \<and> ERRNO_AGAIN (errno_now w2) then read_all_loop fd mx t buf cap w2
              else if r < 0 then
                Some ((SB_EX_FAIL, None), builtin_error (MsgErrno ''recv'' (errno_now w2)) w2)
              else if r = 0 then Some ((int_of_size (length buf), Some buf), w2)
              else if mx \<noteq> 0 \<and> length (buf @ got) \<ge> mx then
                Some ((int_of_size (length (buf @ got)), Some (buf @ got)), w2)
              else if length (buf @ got) = cap then
                (let ncap = (if mx \<noteq> 0 \<and> size_t (cap * 2) > mx then mx else size_t (cap * 2)) in
                 if \<not> heap_ok w2 (if ncap = 0 then 1 else ncap)
                 then Some ((SB_EX_FAIL, None), builtin_error (Msg ''recv: OOM'') w2)
                 else read_all_loop fd mx t (buf @ got) ncap w2)
              else read_all_loop fd mx t (buf @ got) cap w2)"
  by pat_completeness auto
termination
  by (relation "measure (\<lambda>(fd, mx, t, buf, cap, w). length (polls w))")
     (auto dest!: poll_wait_shorter sys_read_polls)

declare read_all_loop.simps [simp del]

definition read_all :: "int \<Rightarrow> nat \<Rightarrow> int \<Rightarrow> world \<Rightarrow> helper_result option" where
  "read_all fd mx t w =
     (if \<not> heap_ok w 4096
      then Some ((SB_EX_FAIL, None), builtin_error (Msg ''recv: OOM'') w)
      else read_all_loop fd mx t [] 4096 w)"

datatype mode = M_LINE | M_BYTES | M_ALL

text \<open>
  The option loop of \<^verbatim>\<open>cmd_recv\<close>: \<open>Inl ()\<close> is the return with \<^verbatim>\<open>SB_EX_USAGE\<close>,
  \<open>Inr\<close> carries the settings and the arguments from index \<^verbatim>\<open>i\<close> on.
\<close>

fun recv_flags ::
  "string list \<Rightarrow> int \<Rightarrow> nat \<Rightarrow> mode \<Rightarrow> unit + (int \<times> nat \<times> mode \<times> string list)" where
  "recv_flags [] t mx m = Inr (t, mx, m, [])"
| "recv_flags (a # as) t mx m =
     (if \<not> arg_is_flag a then Inr (t, mx, m, a # as)
      else if a = ''-T'' then
        (case as of
           [] \<Rightarrow> Inl ()
         | v # rest \<Rightarrow>
             (case parse_uint v of
                Inl e \<Rightarrow> Inl ()
              | Inr u \<Rightarrow> recv_flags rest (int_of_unsigned u) mx m))
      else if a = ''-max'' then
        (case as of
           [] \<Rightarrow> Inl ()
         | v # rest \<Rightarrow>
             (case parse_uint v of
                Inl e \<Rightarrow> Inl ()
              | Inr u \<Rightarrow> recv_flags rest t u m))
      else if a = ''-mode'' then
        (case as of
           [] \<Rightarrow> Inl ()
         | v # rest \<Rightarrow>
             if v = ''line'' then recv_flags rest t mx M_LINE
             else if v = ''bytes'' then recv_flags rest t mx M_BYTES
             else if v = ''all'' then recv_flags rest t mx M_ALL
             else Inl ())
      else Inr (t, mx, m, a # as))"

definition recv_read :: "mode \<Rightarrow> int \<Rightarrow> nat \<Rightarrow> int \<Rightarrow> world \<Rightarrow> helper_result option" where
  "recv_read m fd mx t w =
     (case m of
        M_LINE \<Rightarrow> read_line fd mx t w
      | M_BYTES \<Rightarrow> read_bytes fd (if mx \<noteq> 0 then mx else 4096) t w
      | M_ALL \<Rightarrow> read_all fd mx t w)"

text \<open>
  What \<^verbatim>\<open>cmd_recv\<close> does with the helper's result \<^verbatim>\<open>rlen\<close> and buffer: the result is
  compared with the status codes before it is used as a length, and the value stored is
  the buffer up to its first NUL.
\<close>

definition recv_finish :: "string \<Rightarrow> int \<Rightarrow> byte list option \<Rightarrow> world \<Rightarrow> int \<times> world" where
  "recv_finish var rlen buf w =
     (if rlen = SB_EX_TIMEOUT then
        (case set_sh_var var [] w of
           (sv, w1) \<Rightarrow> if sv \<noteq> 0 then (SB_EX_FAIL, w1) else (SB_EX_TIMEOUT, w1))
      else if rlen = SB_EX_FAIL then (SB_EX_FAIL, w)
      else case buf of
        None \<Rightarrow> (SB_EX_FAIL, builtin_error (Msg ''recv: internal error'') w)
      | Some b \<Rightarrow>
          if rlen < 0 then (SB_EX_FAIL, builtin_error (Msg ''recv: internal error'') w)
          else let tmp = takeWhile (\<lambda>c. c \<noteq> CHR 0x00) (take (nat rlen) b) in
            if \<not> heap_ok w (length tmp + 1)
            then (SB_EX_FAIL, builtin_error (Msg ''recv: OOM'') w)
            else case set_sh_var var tmp w of
              (sv, w1) \<Rightarrow> if sv \<noteq> 0 then (SB_EX_FAIL, w1) else (SB_EX_OK, w1))"

definition cmd_recv :: "string list \<Rightarrow> world \<Rightarrow> (int \<times> world) option" where
  "cmd_recv argv w =
     (case recv_flags argv (- 1) 0 M_LINE of
        Inl u \<Rightarrow> usage_error w
      | Inr (t, mx, m, rest) \<Rightarrow>
          (case rest of
             [a, var] \<Rightarrow>
               (case parse_int a of
                  Inl e \<Rightarrow> usage_error w
                | Inr fd \<Rightarrow>
                    if fd < 0 then usage_error w
                    else case recv_read m fd mx t (w\<lparr>errno_now := ESUCCESS\<rparr>) of
                      None \<Rightarrow> None
                    | Some ((rlen, buf), w1) \<Rightarrow> Some (recv_finish var rlen buf w1))
           | _ \<Rightarrow> usage_error w))"

section \<open>close\<close>

text \<open>
  \<^verbatim>\<open>close\<close> on a descriptor that is not open fails with \<^verbatim>\<open>EBADF\<close>. On an open one it
  releases the descriptor, also when it reports a deferred error (\<open>close_errs\<close>).
\<close>

definition sys_close :: "int \<Rightarrow> world \<Rightarrow> int \<times> world" where
  "sys_close fd w =
     (let w1 = w\<lparr>trace := trace w @ [CClose fd]\<rparr> in
      if fd \<notin> set (open_fds w) then (- 1, w1\<lparr>errno_now := EBADF\<rparr>)
      else case map_of (close_errs w) fd of
        Some e \<Rightarrow> (- 1, w1\<lparr>open_fds := removeAll fd (open_fds w), errno_now := e\<rparr>)
      | None \<Rightarrow> (0, w1\<lparr>open_fds := removeAll fd (open_fds w)\<rparr>))"

definition cmd_close :: "string list \<Rightarrow> world \<Rightarrow> int \<times> world" where
  "cmd_close argv w =
     (case argv of
        [a] \<Rightarrow>
          (case parse_int a of
             Inl e \<Rightarrow> (SB_EX_USAGE, print_usage w)
           | Inr fd \<Rightarrow>
               if fd < 0 then (SB_EX_USAGE, print_usage w)
               else case sys_close fd (w\<lparr>errno_now := ESUCCESS\<rparr>) of
                 (r, w1) \<Rightarrow>
                   if r = 0 then (SB_EX_OK, w1)
                   else if errno_now w1 = EBADF then (SB_EX_FAIL, w1)
                   else (SB_EX_FAIL, builtin_error (MsgErrno ''close'' (errno_now w1)) w1))
      | _ \<Rightarrow> (SB_EX_USAGE, print_usage w))"

section \<open>connect\<close>

text \<open>
  One entry of the list \<^verbatim>\<open>getaddrinfo\<close> returns, with the answers of the calls made on
  it: \<^verbatim>\<open>socket\<close> (an error or the new descriptor), the first \<^verbatim>\<open>set_nonblock\<close>,
  \<^verbatim>\<open>connect\<close> (\<open>None\<close> is the return value 0) and \<^verbatim>\<open>getsockopt(SO_ERROR)\<close> (an error of the
  call, or the pending error \<^verbatim>\<open>soerr\<close>, \<open>ESUCCESS\<close> for none).
\<close>

record cand =
  c_socket :: "errno + int"
  c_nonblock :: "errno option"
  c_connect :: "errno option"
  c_sockopt :: "errno + errno"

datatype af = AF_UNSPEC | AF_INET | AF_INET6

definition sys_socket :: "cand \<Rightarrow> world \<Rightarrow> int \<times> world" where
  "sys_socket c w =
     (let w1 = w\<lparr>trace := trace w @ [CSocket]\<rparr> in
      case c_socket c of
        Inl e \<Rightarrow> (- 1, w1\<lparr>errno_now := e\<rparr>)
      | Inr fd \<Rightarrow> (fd, w1\<lparr>open_fds := fd # open_fds w\<rparr>))"

text \<open>\<^verbatim>\<open>set_nonblock\<close> of \<^verbatim>\<open>util.h\<close> (two \<^verbatim>\<open>fcntl\<close> calls), with the answer it gets.\<close>

definition set_nonblock :: "int \<Rightarrow> bool \<Rightarrow> errno option \<Rightarrow> world \<Rightarrow> int \<times> world" where
  "set_nonblock fd on ans w =
     (let w1 = w\<lparr>trace := trace w @ [CNonblock fd on]\<rparr> in
      case ans of None \<Rightarrow> (0, w1) | Some e \<Rightarrow> (- 1, w1\<lparr>errno_now := e\<rparr>))"

definition sys_connect :: "int \<Rightarrow> cand \<Rightarrow> world \<Rightarrow> int \<times> world" where
  "sys_connect fd c w =
     (let w1 = w\<lparr>trace := trace w @ [CConnect fd]\<rparr> in
      case c_connect c of None \<Rightarrow> (0, w1) | Some e \<Rightarrow> (- 1, w1\<lparr>errno_now := e\<rparr>))"

text \<open>\<^verbatim>\<open>getsockopt(fd, SOL_SOCKET, SO_ERROR, &soerr, &sl)\<close>: the return value and \<^verbatim>\<open>soerr\<close>.\<close>

definition sys_getsockopt :: "int \<Rightarrow> cand \<Rightarrow> world \<Rightarrow> (int \<times> errno) \<times> world" where
  "sys_getsockopt fd c w =
     (let w1 = w\<lparr>trace := trace w @ [CGetsockopt fd]\<rparr> in
      case c_sockopt c of
        Inl e \<Rightarrow> ((- 1, ESUCCESS), w1\<lparr>errno_now := e\<rparr>)
      | Inr soerr \<Rightarrow> ((0, soerr), w1))"

text \<open>
  After a wait for write-readiness the code asks for the pending error; both waiting
  branches of \<^verbatim>\<open>cmd_connect\<close> do this with the same statements. \<open>Inl\<close> is the new
  \<^verbatim>\<open>last_err\<close> of a candidate that failed (its socket is closed), \<open>Inr\<close> the world of
  one that is connected.
\<close>

definition check_so_error :: "int \<Rightarrow> cand \<Rightarrow> world \<Rightarrow> (errno \<times> world) + world" where
  "check_so_error fd c w =
     (case sys_getsockopt fd c w of
        ((r, soerr), w1) \<Rightarrow>
          if r < 0 then Inl (errno_now w1, snd (sys_close fd w1))
          else if soerr \<noteq> ESUCCESS then Inl (soerr, snd (sys_close fd w1))
          else Inr w1)"

text \<open>
  The body of the loop over the candidates, up to the point where the candidate is
  connected (or, for a non-blocking request, connecting): \<open>Inl (Inl st)\<close> returns \<open>st\<close>
  from \<^verbatim>\<open>cmd_connect\<close>, \<open>Inl (Inr e)\<close> is \<^verbatim>\<open>continue\<close> with \<^verbatim>\<open>last_err = e\<close>, and
  \<open>Inr (fd, restore_blocking)\<close> goes on to store the descriptor.
\<close>

definition try_candidate ::
  "bool \<Rightarrow> int \<Rightarrow> cand \<Rightarrow> world \<Rightarrow> (((int + errno) + (int \<times> bool)) \<times> world) option" where
  "try_candidate want_nonblock timeout_ms c w =
     (case sys_socket c w of
        (fd, w1) \<Rightarrow>
          if fd < 0 then Some (Inl (Inr (errno_now w1)), w1)
          else case (if want_nonblock \<or> timeout_ms \<ge> 0
                     then set_nonblock fd True (c_nonblock c) w1 else (0, w1)) of
            (nb, w2) \<Rightarrow>
              if nb < 0 then Some (Inl (Inr (errno_now w2)), snd (sys_close fd w2))
              else let restore_blocking = (\<not> want_nonblock \<and> timeout_ms \<ge> 0) in
                case sys_connect fd c w2 of
                  (cr, w3) \<Rightarrow>
                    if cr = 0 then Some (Inr (fd, restore_blocking), w3)
                    else if errno_now w3 = EINPROGRESS then
                      (if timeout_ms \<ge> 0 then
                         (case poll_wait fd POLLOUT timeout_ms w3 of
                            None \<Rightarrow> None
                          | Some (pr, w4) \<Rightarrow>
                              if pr = 0 then Some (Inl (Inl SB_EX_TIMEOUT), snd (sys_close fd w4))
                              else if pr < 0
                              then Some (Inl (Inr (errno_now w4)), snd (sys_close fd w4))
                              else case check_so_error fd c w4 of
                                Inl (e, w5) \<Rightarrow> Some (Inl (Inr e), w5)
                              | Inr w5 \<Rightarrow> Some (Inr (fd, restore_blocking), w5))
                       else if \<not> want_nonblock then
                         (case poll_wait fd POLLOUT (- 1) w3 of
                            None \<Rightarrow> None
                          | Some (pr, w4) \<Rightarrow>
                              if pr < 0
                              then Some (Inl (Inr (errno_now w4)), snd (sys_close fd w4))
                              else case check_so_error fd c w4 of
                                Inl (e, w5) \<Rightarrow> Some (Inl (Inr e), w5)
                              | Inr w5 \<Rightarrow> Some (Inr (fd, restore_blocking), w5))
                       else Some (Inr (fd, restore_blocking), w3))
                    else Some (Inl (Inr (errno_now w3)), snd (sys_close fd w3)))"

text \<open>
  The loop over the candidates. Every \<^verbatim>\<open>continue\<close> leaves \<^verbatim>\<open>fd\<close> negative, so the
  message after the loop is always printed.
\<close>

fun connect_loop ::
  "bool \<Rightarrow> int \<Rightarrow> string \<Rightarrow> cand list \<Rightarrow> errno \<Rightarrow> world \<Rightarrow> (int \<times> world) option" where
  "connect_loop want_nonblock timeout_ms varfd [] last_err w =
     Some (SB_EX_FAIL,
           builtin_error (MsgErrno ''connect''
             (if last_err \<noteq> ESUCCESS then last_err else ECONNREFUSED)) w)"
| "connect_loop want_nonblock timeout_ms varfd (c # cs) last_err w =
     (case try_candidate want_nonblock timeout_ms c w of
        None \<Rightarrow> None
      | Some (Inl (Inl st), w1) \<Rightarrow> Some (st, w1)
      | Some (Inl (Inr e), w1) \<Rightarrow> connect_loop want_nonblock timeout_ms varfd cs e w1
      | Some (Inr (fd, restore_blocking), w1) \<Rightarrow>
          let w2 = (if restore_blocking then snd (set_nonblock fd False None w1) else w1) in
          case set_sh_var_int varfd fd w2 of
            (sv, w3) \<Rightarrow>
              if sv \<noteq> 0 then Some (SB_EX_FAIL, snd (sys_close fd w3))
              else Some (SB_EX_OK, w3))"

fun connect_flags ::
  "string list \<Rightarrow> af \<Rightarrow> bool \<Rightarrow> int \<Rightarrow> unit + (af \<times> bool \<times> int \<times> string list)" where
  "connect_flags [] fam want_nonblock timeout_ms = Inr (fam, want_nonblock, timeout_ms, [])"
| "connect_flags (a # as) fam want_nonblock timeout_ms =
     (if \<not> arg_is_flag a then Inr (fam, want_nonblock, timeout_ms, a # as)
      else if a = ''-4'' then connect_flags as AF_INET want_nonblock timeout_ms
      else if a = ''-6'' then connect_flags as AF_INET6 want_nonblock timeout_ms
      else if a = ''-n'' then connect_flags as fam True timeout_ms
      else if a = ''-T'' then
        (case as of
           [] \<Rightarrow> Inl ()
         | v # rest \<Rightarrow>
             (case parse_uint v of
                Inl e \<Rightarrow> Inl ()
              | Inr u \<Rightarrow> connect_flags rest fam want_nonblock (int_of_unsigned u)))
      else Inr (fam, want_nonblock, timeout_ms, a # as))"

text \<open>
  \<^verbatim>\<open>getaddrinfo\<close> is a parameter: from host, port and family to its error code or the
  list of candidates.
\<close>

type_synonym resolver = "string \<Rightarrow> string \<Rightarrow> af \<Rightarrow> nat + cand list"

definition cmd_connect :: "resolver \<Rightarrow> string list \<Rightarrow> world \<Rightarrow> (int \<times> world) option" where
  "cmd_connect getaddrinfo argv w =
     (case connect_flags argv AF_UNSPEC False (- 1) of
        Inl u \<Rightarrow> usage_error w
      | Inr (fam, want_nonblock, timeout_ms, rest) \<Rightarrow>
          (case rest of
             [host, port, varfd] \<Rightarrow>
               (case getaddrinfo host port fam of
                  Inl gai \<Rightarrow> Some (SB_EX_FAIL, builtin_error (Msg ''connect: getaddrinfo'') w)
                | Inr res \<Rightarrow> connect_loop want_nonblock timeout_ms varfd res ESUCCESS w)
           | _ \<Rightarrow> usage_error w))"

section \<open>accept\<close>

definition sys_accept ::
  "int \<Rightarrow> world \<Rightarrow> ((int \<times> (string \<times> string) option) \<times> world) option" where
  "sys_accept lfd w =
     (case accepts w of
        [] \<Rightarrow> None
      | AErr e # as \<Rightarrow>
          Some ((- 1, None), w\<lparr>accepts := as, errno_now := e, trace := trace w @ [CAccept lfd]\<rparr>)
      | AConn cfd peer # as \<Rightarrow>
          Some ((cfd, peer),
                w\<lparr>accepts := as, open_fds := cfd # open_fds w, trace := trace w @ [CAccept lfd]\<rparr>))"

fun accept_flags :: "string list \<Rightarrow> int \<Rightarrow> unit + (int \<times> string list)" where
  "accept_flags [] timeout_ms = Inr (timeout_ms, [])"
| "accept_flags (a # as) timeout_ms =
     (if \<not> arg_is_flag a then Inr (timeout_ms, a # as)
      else if a = ''-T'' then
        (case as of
           [] \<Rightarrow> Inl ()
         | v # rest \<Rightarrow>
             (case parse_uint v of
                Inl e \<Rightarrow> Inl ()
              | Inr u \<Rightarrow> accept_flags rest (int_of_unsigned u)))
      else Inr (timeout_ms, a # as))"

text \<open>The part of \<^verbatim>\<open>cmd_accept\<close> after the descriptor of the listener is parsed.\<close>

definition accept_on :: "int \<Rightarrow> int \<Rightarrow> string \<Rightarrow> string option \<Rightarrow> world \<Rightarrow> (int \<times> world) option" where
  "accept_on timeout_ms lfd varfd varpeer w =
     (case (if timeout_ms \<ge> 0 then poll_wait lfd POLLIN timeout_ms w else Some (1, w)) of
        None \<Rightarrow> None
      | Some (pr, w1) \<Rightarrow>
          if pr = 0 then Some (SB_EX_TIMEOUT, w1)
          else if pr < 0
          then Some (SB_EX_FAIL, builtin_error (MsgErrno ''accept: poll'' (errno_now w1)) w1)
          else case sys_accept lfd w1 of
            None \<Rightarrow> None
          | Some ((cfd, peer), w2) \<Rightarrow>
              if cfd < 0
              then Some (SB_EX_FAIL, builtin_error (MsgErrno ''accept'' (errno_now w2)) w2)
              else case set_sh_var_int varfd cfd w2 of
                (sv, w3) \<Rightarrow>
                  if sv \<noteq> 0 then Some (SB_EX_FAIL, snd (sys_close cfd w3))
                  else case varpeer of
                    None \<Rightarrow> Some (SB_EX_OK, w3)
                  | Some vp \<Rightarrow>
                      Some (SB_EX_OK,
                            snd (set_sh_var vp
                                   (case peer of
                                      Some (h, s) \<Rightarrow> h @ '':'' @ s
                                    | None \<Rightarrow> []) w3)))"

definition cmd_accept :: "string list \<Rightarrow> world \<Rightarrow> (int \<times> world) option" where
  "cmd_accept argv w =
     (case accept_flags argv (- 1) of
        Inl u \<Rightarrow> usage_error w
      | Inr (timeout_ms, rest) \<Rightarrow>
          if length rest < 2 \<or> length rest > 3 then usage_error w
          else case parse_int (rest ! 0) of
            Inl e \<Rightarrow> usage_error w
          | Inr lfd \<Rightarrow>
              if lfd < 0 then usage_error w
              else accept_on timeout_ms lfd (rest ! 1)
                     (if length rest = 3 then Some (rest ! 2) else None)
                     (w\<lparr>errno_now := ESUCCESS\<rparr>))"

section \<open>A concrete world\<close>

text \<open>
  The starting point of the concrete runs below: nothing scripted, descriptors 3 to 5
  open, a megabyte of heap.
\<close>

definition world0 :: world where
  "world0 = \<lparr>errno_now = ESUCCESS, polls = [], reads = [], writes = [], accepts = [],
     wire = [], open_fds = [3, 4, 5], close_errs = [], heap_limit = 1048576, vars = [],
     readonly = [], unbindable = [], trace = [], err_out = []\<rparr>"


text \<open>A resolver with one answer, and a candidate whose \<^verbatim>\<open>connect\<close> is still in progress.\<close>

definition pending_cand :: cand where
  "pending_cand = \<lparr>c_socket = Inr 6, c_nonblock = None, c_connect = Some EINPROGRESS,
     c_sockopt = Inr ESUCCESS\<rparr>"

definition one_host :: resolver where
  "one_host host port fam = Inr [pending_cand]"

text \<open>
  What the environment can do to a writer. An answer to \<^verbatim>\<open>write\<close> is harmless when the
  kernel takes at least one byte, or reports an interrupt or a full buffer; an answer to
  \<^verbatim>\<open>poll\<close> is harmless unless it is an error other than an interrupt. \<open>room\<close> is the
  number of bytes a script of answers takes in all, and \<open>blocked\<close> counts its
  would-block answers.
\<close>

fun harmless_write :: "writeres \<Rightarrow> bool" where
  "harmless_write (WRoom k) = (0 < k)"
| "harmless_write (WErr e) = (e = EINTR \<or> e = EAGAIN)"

fun harmless_poll :: "pollres \<Rightarrow> bool" where
  "harmless_poll (PErr e) = (e = EINTR)"
| "harmless_poll p = True"

fun room :: "writeres list \<Rightarrow> nat" where
  "room [] = 0"
| "room (WRoom k # ws) = k + room ws"
| "room (WErr e # ws) = room ws"

fun blocked :: "writeres list \<Rightarrow> nat" where
  "blocked [] = 0"
| "blocked (WErr e # ws) = (if e = EAGAIN then Suc (blocked ws) else blocked ws)"
| "blocked (WRoom k # ws) = blocked ws"


section \<open>The writer\<close>

text \<open>
  What one run of the loop of \<^verbatim>\<open>write_full_poll\<close> puts on the wire is a prefix of the
  buffer, and the whole buffer when the loop runs to its end.
\<close>


lemma sys_write_wire:
  "sys_write fd p w = Some (r, w') \<Longrightarrow>
     (r = - 1 \<and> wire w' = wire w) \<or> (0 \<le> r \<and> nat r \<le> length p \<and> wire w' = wire w @ take (nat r) p)"
  by (auto simp: sys_write_def split: list.splits writeres.splits)

lemma write_loop_wire:
  "write_loop fd p w = Some (ok, w') \<Longrightarrow>
     \<exists>k \<le> length p. wire w' = wire w @ take k p \<and> (ok \<longrightarrow> k = length p)"
proof (induction fd p w rule: write_loop.induct)
  case (1 fd p w)
  show ?case
  proof (cases "p = []")
    case True
    with "1.prems" show ?thesis by (subst (asm) write_loop.simps) auto
  next
    case False
    with "1.prems" obtain r w1 where s: "sys_write fd p w = Some (r, w1)"
      by (subst (asm) write_loop.simps) (auto split: option.splits)
    note sw = sys_write_wire [OF s]
    consider (adv) "r > 0"
      | (intr) "\<not> r > 0" "r < 0 \<and> errno_now w1 = EINTR"
      | (again) "\<not> r > 0" "\<not> (r < 0 \<and> errno_now w1 = EINTR)" "r < 0 \<and> ERRNO_AGAIN (errno_now w1)"
      | (fail) "\<not> r > 0" "\<not> (r < 0 \<and> errno_now w1 = EINTR)" "\<not> (r < 0 \<and> ERRNO_AGAIN (errno_now w1))"
      by blast
    then show ?thesis
    proof cases
      case adv
      with False s "1.prems" have rec: "write_loop fd (drop (nat r) p) w1 = Some (ok, w')"
        by (subst (asm) write_loop.simps) simp
      from "1.IH"(1) [OF False s refl adv rec] obtain k where
        k: "k \<le> length (drop (nat r) p)" "wire w' = wire w1 @ take k (drop (nat r) p)"
           "ok \<longrightarrow> k = length (drop (nat r) p)" by blast
      from sw adv have w1: "nat r \<le> length p" "wire w1 = wire w @ take (nat r) p" by auto
      have "wire w' = wire w @ take (nat r + k) p"
        using k(2) w1(2) by (simp add: take_add)
      moreover have "nat r + k \<le> length p" using k(1) w1(1) by simp
      moreover have "ok \<longrightarrow> nat r + k = length p" using k(3) w1(1) by simp
      ultimately show ?thesis by blast
    next
      case intr
      with False s "1.prems" have rec: "write_loop fd p w1 = Some (ok, w')"
        by (subst (asm) write_loop.simps) simp
      from "1.IH"(2) [OF False s refl intr rec] sw intr show ?thesis by auto
    next
      case again
      with False s "1.prems" obtain pr w2 where
        pw: "poll_wait fd POLLOUT (- 1) w1 = Some (pr, w2)"
        by (subst (asm) write_loop.simps) (auto split: option.splits)
      from sw again have w1: "wire w1 = wire w" by auto
      from poll_wait_writes [OF pw] have w2: "wire w2 = wire w1" by simp
      show ?thesis
      proof (cases "pr \<le> 0")
        case True
        with False s again pw "1.prems" have "ok = False" "w' = w2"
          by (subst (asm) write_loop.simps; simp)+
        with w1 w2 show ?thesis by (intro exI [of _ 0]) simp
      next
        case f: False
        with False s again pw "1.prems" have rec: "write_loop fd p w2 = Some (ok, w')"
          by (subst (asm) write_loop.simps) simp
        from "1.IH"(3) [OF False s refl again pw refl f rec] w1 w2 show ?thesis by auto
      qed
    next
      case fail
      with False s "1.prems" have "ok = False" "w' = w1"
        by (subst (asm) write_loop.simps; simp)+
      moreover from sw fail have "wire w1 = wire w \<or> r = 0" by auto
      ultimately show ?thesis using sw fail by (intro exI [of _ 0]) auto
    qed
  qed
qed


lemma sys_poll_trace:
  "sys_poll fd ev t w = Some (r, w') \<Longrightarrow> trace w' = trace w @ [CPoll fd ev t]"
  by (auto simp: sys_poll_def Let_def split: option.splits pollres.splits)

lemma poll_wait_trace:
  "poll_wait fd ev t w = Some (r, w') \<Longrightarrow>
     \<exists>n. trace w' = trace w @ replicate (Suc n) (CPoll fd ev t)"
proof (induction fd ev t w rule: poll_wait.induct)
  case (1 fd ev t w)
  from "1.prems" obtain r1 w1 where s: "sys_poll fd ev t w = Some (r1, w1)"
    by (subst (asm) poll_wait.simps) (auto split: option.splits)
  show ?case
  proof (cases "r1 < 0 \<and> errno_now w1 = EINTR")
    case True
    with s "1.prems" have "poll_wait fd ev t w1 = Some (r, w')"
      by (subst (asm) poll_wait.simps) simp
    from "1.IH" [OF s refl True this] obtain n where
      "trace w' = trace w1 @ replicate (Suc n) (CPoll fd ev t)" by blast
    with sys_poll_trace [OF s]
    have "trace w' = trace w @ replicate (Suc (Suc n)) (CPoll fd ev t)" by simp
    then show ?thesis by blast
  next
    case False
    with s "1.prems" have "w' = w1"
      by (subst (asm) poll_wait.simps) auto
    with sys_poll_trace [OF s] have "trace w' = trace w @ replicate (Suc 0) (CPoll fd ev t)"
      by simp
    then show ?thesis by blast
  qed
qed

lemma sys_write_trace:
  "sys_write fd p w = Some (r, w') \<Longrightarrow> trace w' = trace w @ [CWrite fd p]"
  by (auto simp: sys_write_def split: list.splits writeres.splits)

lemma write_loop_trace:
  "write_loop fd p w = Some (ok, w') \<Longrightarrow>
     \<exists>cs. trace w' = trace w @ cs \<and> (\<forall>c \<in> set cs. c = CPoll fd POLLOUT (- 1) \<or> (\<exists>k. c = CWrite fd (drop k p)))"
proof (induction fd p w rule: write_loop.induct)
  case (1 fd p w)
  let ?good = "\<lambda>q c. c = CPoll fd POLLOUT (- 1) \<or> (\<exists>k. c = CWrite fd (drop k q))"
  show ?case
  proof (cases "p = []")
    case True
    with "1.prems" show ?thesis by (subst (asm) write_loop.simps) auto
  next
    case False
    with "1.prems" obtain r w1 where s: "sys_write fd p w = Some (r, w1)"
      by (subst (asm) write_loop.simps) (auto split: option.splits)
    have t1: "trace w1 = trace w @ [CWrite fd p]"
      using sys_write_trace [OF s] by simp
    have g0: "?good p (CWrite fd p)"
      by (intro disjI2 exI [of _ 0]) simp
    consider (adv) "r > 0"
      | (intr) "\<not> r > 0" "r < 0 \<and> errno_now w1 = EINTR"
      | (again) "\<not> r > 0" "\<not> (r < 0 \<and> errno_now w1 = EINTR)" "r < 0 \<and> ERRNO_AGAIN (errno_now w1)"
      | (fail) "\<not> r > 0" "\<not> (r < 0 \<and> errno_now w1 = EINTR)" "\<not> (r < 0 \<and> ERRNO_AGAIN (errno_now w1))"
      by blast
    then show ?thesis
    proof cases
      case adv
      with False s "1.prems" have rec: "write_loop fd (drop (nat r) p) w1 = Some (ok, w')"
        by (subst (asm) write_loop.simps) simp
      from "1.IH"(1) [OF False s refl adv rec] obtain cs where
        cs: "trace w' = trace w1 @ cs" "\<forall>c \<in> set cs. ?good (drop (nat r) p) c" by blast
      have "\<forall>c \<in> set cs. ?good p c"
      proof
        fix c assume "c \<in> set cs"
        with cs(2) have "?good (drop (nat r) p) c" by blast
        then show "?good p c"
        proof
          assume "c = CPoll fd POLLOUT (- 1)" then show ?thesis by simp
        next
          assume "\<exists>k. c = CWrite fd (drop k (drop (nat r) p))"
          then obtain k where "c = CWrite fd (drop (k + nat r) p)" by auto
          then show ?thesis by blast
        qed
      qed
      then have "\<forall>c \<in> set (CWrite fd p # cs). ?good p c" using g0 by simp
      moreover have "trace w' = trace w @ (CWrite fd p # cs)" using cs(1) t1 by simp
      ultimately show ?thesis by blast
    next
      case intr
      with False s "1.prems" have rec: "write_loop fd p w1 = Some (ok, w')"
        by (subst (asm) write_loop.simps) simp
      from "1.IH"(2) [OF False s refl intr rec] obtain cs where
        cs: "trace w' = trace w1 @ cs" "\<forall>c \<in> set cs. ?good p c" by blast
      from g0 cs(2) have "\<forall>c \<in> set (CWrite fd p # cs). ?good p c" by simp
      moreover have "trace w' = trace w @ (CWrite fd p # cs)" using cs(1) t1 by simp
      ultimately show ?thesis by blast
    next
      case again
      with False s "1.prems" obtain pr w2 where
        pw: "poll_wait fd POLLOUT (- 1) w1 = Some (pr, w2)"
        by (subst (asm) write_loop.simps) (auto split: option.splits)
      from poll_wait_trace [OF pw] obtain n where
        t2: "trace w2 = trace w1 @ replicate (Suc n) (CPoll fd POLLOUT (- 1))" by blast
      let ?pre = "CWrite fd p # replicate (Suc n) (CPoll fd POLLOUT (- 1))"
      have pre: "\<forall>c \<in> set ?pre. ?good p c" using g0 by auto
      have t12: "trace w2 = trace w @ ?pre" using t1 t2 by simp
      show ?thesis
      proof (cases "pr \<le> 0")
        case True
        with False s again pw "1.prems" have "w' = w2"
          by (subst (asm) write_loop.simps) simp
        with t12 pre show ?thesis by blast
      next
        case f: False
        with False s again pw "1.prems" have rec: "write_loop fd p w2 = Some (ok, w')"
          by (subst (asm) write_loop.simps) simp
        from "1.IH"(3) [OF False s refl again pw refl f rec] obtain cs where
          cs: "trace w' = trace w2 @ cs" "\<forall>c \<in> set cs. ?good p c" by blast
        from pre cs(2) have "\<forall>c \<in> set (?pre @ cs). ?good p c" by auto
        moreover have "trace w' = trace w @ (?pre @ cs)" using cs(1) t12 by simp
        ultimately show ?thesis by blast
      qed
    next
      case fail
      with False s "1.prems" have "w' = w1"
        by (subst (asm) write_loop.simps) simp
      moreover have "\<forall>c \<in> set [CWrite fd p]. ?good p c" using g0 by simp
      ultimately show ?thesis using t1 by blast
    qed
  qed
qed

lemma sys_poll_shell:
  "sys_poll fd ev t w = Some (r, w') \<Longrightarrow> vars w' = vars w \<and> err_out w' = err_out w"
  by (auto simp: sys_poll_def Let_def split: option.splits pollres.splits)

lemma poll_wait_shell:
  "poll_wait fd ev t w = Some (r, w') \<Longrightarrow> vars w' = vars w \<and> err_out w' = err_out w"
proof (induction fd ev t w rule: poll_wait.induct)
  case (1 fd ev t w)
  from "1.prems" obtain r1 w1 where s: "sys_poll fd ev t w = Some (r1, w1)"
    by (subst (asm) poll_wait.simps) (auto split: option.splits)
  show ?case
  proof (cases "r1 < 0 \<and> errno_now w1 = EINTR")
    case True
    with s "1.prems" have "poll_wait fd ev t w1 = Some (r, w')"
      by (subst (asm) poll_wait.simps) simp
    with "1.IH" [OF s refl True] sys_poll_shell [OF s] show ?thesis by simp
  next
    case False
    with s "1.prems" have "w' = w1"
      by (subst (asm) poll_wait.simps) auto
    with sys_poll_shell [OF s] show ?thesis by simp
  qed
qed

lemma sys_write_shell:
  "sys_write fd p w = Some (r, w') \<Longrightarrow> vars w' = vars w \<and> err_out w' = err_out w"
  by (auto simp: sys_write_def split: list.splits writeres.splits)

lemma write_loop_shell:
  "write_loop fd p w = Some (ok, w') \<Longrightarrow> vars w' = vars w \<and> err_out w' = err_out w"
proof (induction fd p w rule: write_loop.induct)
  case (1 fd p w)
  show ?case
  proof (cases "p = []")
    case True
    with "1.prems" show ?thesis by (subst (asm) write_loop.simps) auto
  next
    case False
    with "1.prems" obtain r w1 where s: "sys_write fd p w = Some (r, w1)"
      by (subst (asm) write_loop.simps) (auto split: option.splits)
    note sw = sys_write_shell [OF s]
    consider (adv) "r > 0"
      | (intr) "\<not> r > 0" "r < 0 \<and> errno_now w1 = EINTR"
      | (again) "\<not> r > 0" "\<not> (r < 0 \<and> errno_now w1 = EINTR)" "r < 0 \<and> ERRNO_AGAIN (errno_now w1)"
      | (fail) "\<not> r > 0" "\<not> (r < 0 \<and> errno_now w1 = EINTR)" "\<not> (r < 0 \<and> ERRNO_AGAIN (errno_now w1))"
      by blast
    then show ?thesis
    proof cases
      case adv
      with False s "1.prems" have rec: "write_loop fd (drop (nat r) p) w1 = Some (ok, w')"
        by (subst (asm) write_loop.simps) simp
      from "1.IH"(1) [OF False s refl adv rec] sw show ?thesis by simp
    next
      case intr
      with False s "1.prems" have rec: "write_loop fd p w1 = Some (ok, w')"
        by (subst (asm) write_loop.simps) simp
      from "1.IH"(2) [OF False s refl intr rec] sw show ?thesis by simp
    next
      case again
      with False s "1.prems" obtain pr w2 where
        pw: "poll_wait fd POLLOUT (- 1) w1 = Some (pr, w2)"
        by (subst (asm) write_loop.simps) (auto split: option.splits)
      note w2 = poll_wait_shell [OF pw]
      show ?thesis
      proof (cases "pr \<le> 0")
        case True
        with False s again pw "1.prems" have "w' = w2"
          by (subst (asm) write_loop.simps) simp
        with sw w2 show ?thesis by simp
      next
        case f: False
        with False s again pw "1.prems" have rec: "write_loop fd p w2 = Some (ok, w')"
          by (subst (asm) write_loop.simps) simp
        from "1.IH"(3) [OF False s refl again pw refl f rec] sw w2 show ?thesis by simp
      qed
    next
      case fail
      with False s "1.prems" have "w' = w1"
        by (subst (asm) write_loop.simps) simp
      with sw show ?thesis by simp
    qed
  qed
qed


subsection \<open>How the loop answers each event\<close>

text \<open>
  One step of the loop for each answer of \<^verbatim>\<open>write\<close>, and of \<^verbatim>\<open>poll_wait\<close> for each answer
  of \<^verbatim>\<open>poll\<close>.
\<close>


lemma write_loop_empty: "write_loop fd [] w = Some (True, w)"
  by (subst write_loop.simps) simp

lemma write_loop_stuck: "p \<noteq> [] \<Longrightarrow> writes w = [] \<Longrightarrow> write_loop fd p w = None"
  by (subst write_loop.simps) (simp add: sys_write_def)

lemma write_loop_advance:
  assumes "p \<noteq> []" "writes w = WRoom k # ws" "0 < k"
  shows "write_loop fd p w =
           write_loop fd (drop k p)
             (w\<lparr>writes := ws, wire := wire w @ take k p, trace := trace w @ [CWrite fd p]\<rparr>)"
proof -
  from assms have "0 < min k (length p)" by simp
  moreover have "drop (min k (length p)) p = drop k p" "take (min k (length p)) p = take k p"
    by (simp_all add: min_def)
  ultimately show ?thesis using assms
    by (subst write_loop.simps) (simp add: sys_write_def)
qed

lemma write_loop_zero:
  assumes "p \<noteq> []" "writes w = WRoom 0 # ws"
  shows "write_loop fd p w = Some (False, w\<lparr>writes := ws, wire := wire w, trace := trace w @ [CWrite fd p]\<rparr>)"
  using assms by (subst write_loop.simps) (simp add: sys_write_def)

lemma write_loop_interrupt:
  assumes "p \<noteq> []" "writes w = WErr EINTR # ws"
  shows "write_loop fd p w =
           write_loop fd p (w\<lparr>writes := ws, errno_now := EINTR, trace := trace w @ [CWrite fd p]\<rparr>)"
  using assms by (subst write_loop.simps) (simp add: sys_write_def)

lemma write_loop_would_block:
  assumes "p \<noteq> []" "writes w = WErr EAGAIN # ws"
  shows "write_loop fd p w =
           (case poll_wait fd POLLOUT (- 1)
                   (w\<lparr>writes := ws, errno_now := EAGAIN, trace := trace w @ [CWrite fd p]\<rparr>) of
              None \<Rightarrow> None
            | Some (pr, w2) \<Rightarrow> if pr \<le> 0 then Some (False, w2) else write_loop fd p w2)"
  using assms by (subst write_loop.simps) (simp add: sys_write_def ERRNO_AGAIN_def)

lemma write_loop_error:
  assumes "p \<noteq> []" "writes w = WErr e # ws" "e \<noteq> EINTR" "e \<noteq> EAGAIN"
  shows "write_loop fd p w =
           Some (False, w\<lparr>writes := ws, errno_now := e, trace := trace w @ [CWrite fd p]\<rparr>)"
  using assms by (subst write_loop.simps) (simp add: sys_write_def ERRNO_AGAIN_def)

lemma poll_wait_none: "polls w = [] \<Longrightarrow> poll_wait fd ev t w = None"
  by (subst poll_wait.simps) (simp add: sys_poll_def)

lemma poll_wait_ready:
  "polls w = PReady # ps \<Longrightarrow>
     poll_wait fd ev t w = Some (1, w\<lparr>polls := ps, trace := trace w @ [CPoll fd ev t]\<rparr>)"
  by (subst poll_wait.simps) (simp add: sys_poll_def)

lemma poll_wait_quiet:
  assumes "polls w = PTimeout # ps" "t < 0"
  shows "poll_wait fd ev t w = poll_wait fd ev t (w\<lparr>polls := ps\<rparr>)"
proof -
  from assms have "sys_poll fd ev t w = sys_poll fd ev t (w\<lparr>polls := ps\<rparr>)"
    by (simp add: sys_poll_def Let_def split: option.splits)
  then show ?thesis by (subst poll_wait.simps, subst (2) poll_wait.simps) simp
qed

lemma poll_wait_interrupt:
  "polls w = PErr EINTR # ps \<Longrightarrow>
     poll_wait fd ev t w =
       poll_wait fd ev t (w\<lparr>polls := ps, trace := trace w @ [CPoll fd ev t], errno_now := EINTR\<rparr>)"
  by (subst poll_wait.simps) (simp add: sys_poll_def)

lemma poll_wait_error:
  "polls w = PErr e # ps \<Longrightarrow> e \<noteq> EINTR \<Longrightarrow>
     poll_wait fd ev t w =
       Some (- 1, w\<lparr>polls := ps, trace := trace w @ [CPoll fd ev t], errno_now := e\<rparr>)"
  by (subst poll_wait.simps) (simp add: sys_poll_def)

text \<open>A wait without deadline among harmless answers ends only with readiness.\<close>

lemma poll_wait_harmless:
  assumes "polls w = ps" "\<forall>x \<in> set ps. harmless_poll x"
      and "poll_wait fd ev (- 1) w = Some (pr, w2)"
  shows "pr = 1 \<and> writes w2 = writes w \<and> (\<forall>x \<in> set (polls w2). harmless_poll x) \<and>
         Suc (count_list (polls w2) PReady) = count_list ps PReady"
  using assms
proof (induction ps arbitrary: w)
  case Nil
  then show ?case by (simp add: poll_wait_none)
next
  case (Cons x ps)
  show ?case
  proof (cases x)
    case PReady
    with Cons.prems poll_wait_ready [of w ps fd ev "- 1"] show ?thesis by auto
  next
    case PTimeout
    with Cons.prems have "poll_wait fd ev (- 1) (w\<lparr>polls := ps\<rparr>) = Some (pr, w2)"
      using poll_wait_quiet [of w ps "- 1" fd ev] by simp
    from Cons.IH [OF _ _ this] Cons.prems PTimeout show ?thesis by simp
  next
    case (PErr e)
    with Cons.prems have e: "e = EINTR" by simp
    let ?w1 = "w\<lparr>polls := ps, trace := trace w @ [CPoll fd ev (- 1)], errno_now := EINTR\<rparr>"
    from Cons.prems PErr e have "poll_wait fd ev (- 1) ?w1 = Some (pr, w2)"
      using poll_wait_interrupt [of w ps fd ev "- 1"] by simp
    from Cons.IH [OF _ _ this] Cons.prems PErr e show ?thesis by simp
  qed
qed

lemma poll_wait_progress:
  assumes "polls w = ps" "\<forall>x \<in> set ps. harmless_poll x" "0 < count_list ps PReady"
  shows "\<exists>w2. poll_wait fd ev (- 1) w = Some (1, w2)"
  using assms
proof (induction ps arbitrary: w)
  case Nil
  then show ?case by simp
next
  case (Cons x ps)
  show ?case
  proof (cases x)
    case PReady
    with Cons.prems poll_wait_ready [of w ps fd ev "- 1"] show ?thesis by auto
  next
    case PTimeout
    with Cons.prems have "poll_wait fd ev (- 1) w = poll_wait fd ev (- 1) (w\<lparr>polls := ps\<rparr>)"
      using poll_wait_quiet [of w ps "- 1" fd ev] by simp
    moreover from Cons.IH [of "w\<lparr>polls := ps\<rparr>"] Cons.prems PTimeout
    have "\<exists>w2. poll_wait fd ev (- 1) (w\<lparr>polls := ps\<rparr>) = Some (1, w2)" by simp
    ultimately show ?thesis by simp
  next
    case (PErr e)
    with Cons.prems have e: "e = EINTR" by simp
    let ?w1 = "w\<lparr>polls := ps, trace := trace w @ [CPoll fd ev (- 1)], errno_now := EINTR\<rparr>"
    from Cons.prems PErr e have "poll_wait fd ev (- 1) w = poll_wait fd ev (- 1) ?w1"
      using poll_wait_interrupt [of w ps fd ev "- 1"] by simp
    moreover from Cons.IH [of ?w1] Cons.prems PErr e
    have "\<exists>w2. poll_wait fd ev (- 1) ?w1 = Some (1, w2)" by simp
    ultimately show ?thesis by simp
  qed
qed

text \<open>Among harmless answers the loop cannot fail.\<close>

lemma write_loop_harmless:
  assumes "writes w = ws" "\<forall>x \<in> set ws. harmless_write x"
      and "\<forall>x \<in> set (polls w). harmless_poll x"
      and "write_loop fd p w = Some (ok, w')"
  shows "ok"
  using assms
proof (induction ws arbitrary: w p)
  case Nil
  then show ?case by (cases "p = []") (simp_all add: write_loop_empty write_loop_stuck)
next
  case (Cons x ws)
  show ?case
  proof (cases "p = []")
    case True
    with Cons.prems show ?thesis by (simp add: write_loop_empty)
  next
    case False
    show ?thesis
    proof (cases x)
      case (WRoom k)
      with Cons.prems have k: "0 < k" by simp
      let ?w1 = "w\<lparr>writes := ws, wire := wire w @ take k p, trace := trace w @ [CWrite fd p]\<rparr>"
      from write_loop_advance [OF False _ k, of w ws fd] Cons.prems WRoom
      have "write_loop fd (drop k p) ?w1 = Some (ok, w')" by simp
      from Cons.IH [OF _ _ _ this] Cons.prems show ?thesis by simp
    next
      case (WErr e)
      with Cons.prems consider "e = EINTR" | "e = EAGAIN" by auto
      then show ?thesis
      proof cases
        case 1
        let ?w1 = "w\<lparr>writes := ws, errno_now := EINTR, trace := trace w @ [CWrite fd p]\<rparr>"
        from write_loop_interrupt [OF False, of w ws fd] Cons.prems WErr 1
        have "write_loop fd p ?w1 = Some (ok, w')" by simp
        from Cons.IH [OF _ _ _ this] Cons.prems show ?thesis by simp
      next
        case 2
        let ?w1 = "w\<lparr>writes := ws, errno_now := EAGAIN, trace := trace w @ [CWrite fd p]\<rparr>"
        from write_loop_would_block [OF False, of w ws fd] Cons.prems WErr 2
        have wb: "(case poll_wait fd POLLOUT (- 1) ?w1 of None \<Rightarrow> None
                   | Some (pr, w2) \<Rightarrow> if pr \<le> 0 then Some (False, w2) else write_loop fd p w2)
                  = Some (ok, w')" by simp
        then obtain pr w2 where pw: "poll_wait fd POLLOUT (- 1) ?w1 = Some (pr, w2)"
          by (auto split: option.splits)
        from poll_wait_harmless [OF _ _ pw, of "polls w"] Cons.prems
        have h: "pr = 1" "writes w2 = ws" "\<forall>x \<in> set (polls w2). harmless_poll x" by simp_all
        with wb pw have "write_loop fd p w2 = Some (ok, w')" by simp
        from Cons.IH [OF h(2) _ h(3) this] Cons.prems show ?thesis by simp
      qed
    qed
  qed
qed

text \<open>With room for the whole buffer and readiness after every full buffer, the loop ends.\<close>

lemma write_loop_progress:
  assumes "writes w = ws" "\<forall>x \<in> set ws. harmless_write x"
      and "\<forall>x \<in> set (polls w). harmless_poll x"
      and "length p \<le> room ws" "blocked ws \<le> count_list (polls w) PReady"
  shows "\<exists>w'. write_loop fd p w = Some (True, w')"
  using assms
proof (induction ws arbitrary: w p)
  case Nil
  then show ?case by (simp add: write_loop_empty)
next
  case (Cons x ws)
  show ?case
  proof (cases "p = []")
    case True
    then show ?thesis by (simp add: write_loop_empty)
  next
    case False
    show ?thesis
    proof (cases x)
      case (WRoom k)
      with Cons.prems have k: "0 < k" by simp
      let ?w1 = "w\<lparr>writes := ws, wire := wire w @ take k p, trace := trace w @ [CWrite fd p]\<rparr>"
      from write_loop_advance [OF False _ k, of w ws fd] Cons.prems WRoom
      have "write_loop fd p w = write_loop fd (drop k p) ?w1" by simp
      moreover from Cons.IH [of ?w1 "drop k p"] Cons.prems WRoom
      have "\<exists>w'. write_loop fd (drop k p) ?w1 = Some (True, w')" by simp
      ultimately show ?thesis by simp
    next
      case (WErr e)
      with Cons.prems consider "e = EINTR" | "e = EAGAIN" by auto
      then show ?thesis
      proof cases
        case 1
        let ?w1 = "w\<lparr>writes := ws, errno_now := EINTR, trace := trace w @ [CWrite fd p]\<rparr>"
        from write_loop_interrupt [OF False, of w ws fd] Cons.prems WErr 1
        have "write_loop fd p w = write_loop fd p ?w1" by simp
        moreover from Cons.IH [of ?w1 p] Cons.prems WErr 1
        have "\<exists>w'. write_loop fd p ?w1 = Some (True, w')" by simp
        ultimately show ?thesis by simp
      next
        case 2
        let ?w1 = "w\<lparr>writes := ws, errno_now := EAGAIN, trace := trace w @ [CWrite fd p]\<rparr>"
        from Cons.prems WErr 2 have c: "0 < count_list (polls ?w1) PReady"
          and hp: "\<forall>x \<in> set (polls ?w1). harmless_poll x" by simp_all
        from poll_wait_progress [OF refl hp c] obtain w2 where
          pw: "poll_wait fd POLLOUT (- 1) ?w1 = Some (1, w2)" by blast
        from poll_wait_harmless [OF refl hp pw]
        have h: "writes w2 = ws" "\<forall>x \<in> set (polls w2). harmless_poll x"
          "Suc (count_list (polls w2) PReady) = count_list (polls w) PReady" by simp_all
        from write_loop_would_block [OF False, of w ws fd] Cons.prems WErr 2 pw
        have "write_loop fd p w = write_loop fd p w2" by simp
        moreover from Cons.IH [OF h(1) _ h(2), of p] Cons.prems WErr 2 h(3)
        have "\<exists>w'. write_loop fd p w2 = Some (True, w')" by simp
        ultimately show ?thesis by simp
      qed
    qed
  qed
qed

text \<open>
  Every run of \<^verbatim>\<open>cmd_send\<close> that gets past its argument checks and its allocation is a
  run of \<open>send_buffer\<close>; the others return before any system call.
\<close>

lemma cmd_send_cases:
  assumes "cmd_send argv w = Some (st, w')"
  shows "((st = SB_EX_USAGE \<or> st = SB_EX_FAIL) \<and> wire w' = wire w \<and> trace w' = trace w) \<or>
         (\<exists>fd buf. 0 \<le> fd \<and> send_buffer fd buf (w\<lparr>errno_now := ESUCCESS\<rparr>) = Some (st, w'))"
  using assms
  by (auto simp: cmd_send_def usage_error_def print_usage_def builtin_error_def Let_def
        split: prod.splits list.splits sum.splits if_splits option.splits)

lemma send_buffer_safe:
  assumes "send_buffer fd buf w = Some (st, w')"
  shows "((st = SB_EX_OK \<and> wire w' = wire w @ buf \<and> err_out w' = err_out w) \<or>
          (st = SB_EX_FAIL \<and> (\<exists>k \<le> length buf. wire w' = wire w @ take k buf) \<and>
           err_out w' = err_out w @ [MsgErrno ''send'' (errno_now w')])) \<and>
         vars w' = vars w \<and>
         (\<exists>cs. trace w' = trace w @ cs \<and>
            (\<forall>c \<in> set cs. c = CPoll fd POLLOUT (- 1) \<or> (\<exists>k. c = CWrite fd (drop k buf))))"
proof -
  from assms obtain ok w1 where wl: "write_loop fd buf w = Some (ok, w1)"
    by (auto simp: send_buffer_def write_full_poll_def split: option.splits)
  from write_loop_wire [OF wl] obtain k where
    k: "k \<le> length buf" "wire w1 = wire w @ take k buf" "ok \<longrightarrow> k = length buf" by blast
  note sh = write_loop_shell [OF wl]
  note tr = write_loop_trace [OF wl]
  show ?thesis
  proof (cases ok)
    case True
    with assms wl have "st = SB_EX_OK" "w' = w1"
      by (auto simp: send_buffer_def write_full_poll_def)
    with True k sh tr show ?thesis by simp
  next
    case False
    with assms wl have "st = SB_EX_FAIL" "w' = builtin_error (MsgErrno ''send'' (errno_now w1)) w1"
      by (auto simp: send_buffer_def write_full_poll_def)
    with k sh tr show ?thesis by (auto simp: builtin_error_def)
  qed
qed


lemma send_buffer_loop:
  "send_buffer fd buf w =
     (case write_loop fd buf w of
        None \<Rightarrow> None
      | Some (ok, w1) \<Rightarrow>
          if ok then Some (SB_EX_OK, w1)
          else Some (SB_EX_FAIL, w1\<lparr>err_out := err_out w1 @ [MsgErrno ''send'' (errno_now w1)]\<rparr>))"
  by (simp add: send_buffer_def write_full_poll_def builtin_error_def split: option.splits)

lemma write_loop_ready:
  assumes "p \<noteq> []" "writes w = WErr EAGAIN # ws" "polls w = PReady # ps"
  shows "write_loop fd p w =
           write_loop fd p
             (w\<lparr>writes := ws, errno_now := EAGAIN, polls := ps,
                trace := trace w @ [CWrite fd p, CPoll fd POLLOUT (- 1)]\<rparr>)"
proof -
  let ?w1 = "w\<lparr>writes := ws, errno_now := EAGAIN, trace := trace w @ [CWrite fd p]\<rparr>"
  from assms have "polls ?w1 = PReady # ps" by simp
  from poll_wait_ready [OF this, of fd POLLOUT "- 1"] assms
  show ?thesis by (simp add: write_loop_would_block)
qed

lemma write_loop_quiet:
  assumes "p \<noteq> []" "writes w = WErr EAGAIN # ws" "polls w = PTimeout # ps"
  shows "write_loop fd p w = write_loop fd p (w\<lparr>polls := ps\<rparr>)"
proof -
  let ?w1 = "w\<lparr>writes := ws, errno_now := EAGAIN, trace := trace w @ [CWrite fd p]\<rparr>"
  let ?w2 = "w\<lparr>polls := ps\<rparr>"
  let ?w3 = "?w2\<lparr>writes := ws, errno_now := EAGAIN, trace := trace ?w2 @ [CWrite fd p]\<rparr>"
  from assms have a: "write_loop fd p w =
      (case poll_wait fd POLLOUT (- 1) ?w1 of
         None \<Rightarrow> None
       | Some (pr, w2) \<Rightarrow> if pr \<le> 0 then Some (False, w2) else write_loop fd p w2)"
    by (intro write_loop_would_block) simp_all
  from assms have b: "write_loop fd p ?w2 =
      (case poll_wait fd POLLOUT (- 1) ?w3 of
         None \<Rightarrow> None
       | Some (pr, w2) \<Rightarrow> if pr \<le> 0 then Some (False, w2) else write_loop fd p w2)"
    by (intro write_loop_would_block) simp_all
  from assms have q: "poll_wait fd POLLOUT (- 1) ?w1 = poll_wait fd POLLOUT (- 1) (?w1\<lparr>polls := ps\<rparr>)"
    by (intro poll_wait_quiet) simp_all
  have eq: "?w1\<lparr>polls := ps\<rparr> = ?w3" by (cases w) simp
  show ?thesis by (simp only: a b q eq)
qed

lemma write_loop_poll_error:
  assumes "p \<noteq> []" "writes w = WErr EAGAIN # ws" "polls w = PErr e # ps" "e \<noteq> EINTR"
  shows "write_loop fd p w =
           Some (False,
                 w\<lparr>writes := ws, errno_now := e, polls := ps,
                   trace := trace w @ [CWrite fd p, CPoll fd POLLOUT (- 1)]\<rparr>)"
proof -
  let ?w1 = "w\<lparr>writes := ws, errno_now := EAGAIN, trace := trace w @ [CWrite fd p]\<rparr>"
  from assms have "polls ?w1 = PErr e # ps" by simp
  from poll_wait_error [OF this assms(4), of fd POLLOUT "- 1"] assms
  show ?thesis by (simp add: write_loop_would_block)
qed

text \<open>
  C6. For every buffer and handle:
  \<^item> a send that returns has either put every byte of the buffer on the wire, in order and
    once, and reports success, or it reports failure with exit status 1 after a prefix
    of the buffer went out, and neither the status nor the diagnostic tells how long
    that prefix is; it sets no shell variable, writes only from the cursor on and waits
    only for write-readiness, without a deadline;
  \<^item> it fails only on an error: as long as every \<^verbatim>\<open>write\<close> takes a byte or reports an
    interrupt or a full buffer, and no \<^verbatim>\<open>poll\<close> fails other than by an interrupt, a send
    that returns reports success with the whole buffer on the wire;
  \<^item> it does succeed when the kernel takes the bytes: if moreover the answers have room
    for the whole buffer and the descriptor becomes writable after each full buffer, the
    send returns success;
  \<^item> the status is that of the loop of \<^verbatim>\<open>write_full_poll\<close>, and at every position \<open>p\<close> of
    the cursor the loop answers each event as follows: with nothing left it is done; a
    partial write moves the cursor by the number of bytes taken; an interrupted write is
    tried again at once, with no wait; a write that would block is followed by a wait
    for write-readiness with timeout -1, which a quiet period does not end and which
    never returns when nothing more happens, and then the write is tried again; an
    error of that wait, any other error of \<^verbatim>\<open>write\<close>, and a \<^verbatim>\<open>write\<close> that takes nothing end
    the loop at once with failure.
\<close>

theorem send_all_or_fail:
  "(send_buffer fd buf w = Some (st, w') \<longrightarrow>
      ((st = SB_EX_OK \<and> wire w' = wire w @ buf \<and> err_out w' = err_out w) \<or>
       (st = SB_EX_FAIL \<and> (\<exists>k \<le> length buf. wire w' = wire w @ take k buf) \<and>
        err_out w' = err_out w @ [MsgErrno ''send'' (errno_now w')])) \<and>
      vars w' = vars w \<and>
      (\<exists>cs. trace w' = trace w @ cs \<and>
         (\<forall>c \<in> set cs. c = CPoll fd POLLOUT (- 1) \<or> (\<exists>k. c = CWrite fd (drop k buf))))) \<and>
   ((\<forall>x \<in> set (writes w). harmless_write x) \<and> (\<forall>x \<in> set (polls w). harmless_poll x) \<and>
    send_buffer fd buf w = Some (st, w') \<longrightarrow>
      st = SB_EX_OK \<and> wire w' = wire w @ buf) \<and>
   ((\<forall>x \<in> set (writes w). harmless_write x) \<and> (\<forall>x \<in> set (polls w). harmless_poll x) \<and>
    length buf \<le> room (writes w) \<and> blocked (writes w) \<le> count_list (polls w) PReady \<longrightarrow>
      (\<exists>w''. send_buffer fd buf w = Some (SB_EX_OK, w'') \<and> wire w'' = wire w @ buf)) \<and>
   send_buffer fd buf w =
     (case write_loop fd buf w of
        None \<Rightarrow> None
      | Some (ok, w1) \<Rightarrow>
          if ok then Some (SB_EX_OK, w1)
          else Some (SB_EX_FAIL, w1\<lparr>err_out := err_out w1 @ [MsgErrno ''send'' (errno_now w1)]\<rparr>)) \<and>
   write_loop fd [] w = Some (True, w) \<and>
   (p \<noteq> [] \<and> writes w = WRoom k # ws \<and> 0 < k \<longrightarrow>
      write_loop fd p w =
        write_loop fd (drop k p)
          (w\<lparr>writes := ws, wire := wire w @ take k p, trace := trace w @ [CWrite fd p]\<rparr>)) \<and>
   (p \<noteq> [] \<and> writes w = WErr EINTR # ws \<longrightarrow>
      write_loop fd p w =
        write_loop fd p (w\<lparr>writes := ws, errno_now := EINTR, trace := trace w @ [CWrite fd p]\<rparr>)) \<and>
   (p \<noteq> [] \<and> writes w = WErr EAGAIN # ws \<and> polls w = PReady # ps \<longrightarrow>
      write_loop fd p w =
        write_loop fd p
          (w\<lparr>writes := ws, errno_now := EAGAIN, polls := ps,
             trace := trace w @ [CWrite fd p, CPoll fd POLLOUT (- 1)]\<rparr>)) \<and>
   (p \<noteq> [] \<and> writes w = WErr EAGAIN # ws \<and> polls w = PTimeout # ps \<longrightarrow>
      write_loop fd p w = write_loop fd p (w\<lparr>polls := ps\<rparr>)) \<and>
   (p \<noteq> [] \<and> writes w = WErr EAGAIN # ws \<and> polls w = [] \<longrightarrow> write_loop fd p w = None) \<and>
   (p \<noteq> [] \<and> writes w = WErr EAGAIN # ws \<and> polls w = PErr e # ps \<and> e \<noteq> EINTR \<longrightarrow>
      write_loop fd p w =
        Some (False,
              w\<lparr>writes := ws, errno_now := e, polls := ps,
                trace := trace w @ [CWrite fd p, CPoll fd POLLOUT (- 1)]\<rparr>)) \<and>
   (p \<noteq> [] \<and> writes w = WErr e # ws \<and> e \<noteq> EINTR \<and> e \<noteq> EAGAIN \<longrightarrow>
      write_loop fd p w =
        Some (False, w\<lparr>writes := ws, errno_now := e, trace := trace w @ [CWrite fd p]\<rparr>)) \<and>
   (p \<noteq> [] \<and> writes w = WRoom 0 # ws \<longrightarrow>
      write_loop fd p w =
        Some (False, w\<lparr>writes := ws, wire := wire w, trace := trace w @ [CWrite fd p]\<rparr>))"
proof -
  have safe: "send_buffer fd buf w = Some (st, w') \<longrightarrow>
      ((st = SB_EX_OK \<and> wire w' = wire w @ buf \<and> err_out w' = err_out w) \<or>
       (st = SB_EX_FAIL \<and> (\<exists>k \<le> length buf. wire w' = wire w @ take k buf) \<and>
        err_out w' = err_out w @ [MsgErrno ''send'' (errno_now w')])) \<and>
      vars w' = vars w \<and>
      (\<exists>cs. trace w' = trace w @ cs \<and>
         (\<forall>c \<in> set cs. c = CPoll fd POLLOUT (- 1) \<or> (\<exists>k. c = CWrite fd (drop k buf))))"
    using send_buffer_safe by blast
  have only_errors: "(\<forall>x \<in> set (writes w). harmless_write x) \<and>
      (\<forall>x \<in> set (polls w). harmless_poll x) \<and> send_buffer fd buf w = Some (st, w') \<longrightarrow>
      st = SB_EX_OK \<and> wire w' = wire w @ buf"
  proof
    assume h: "(\<forall>x \<in> set (writes w). harmless_write x) \<and>
      (\<forall>x \<in> set (polls w). harmless_poll x) \<and> send_buffer fd buf w = Some (st, w')"
    then obtain ok w1 where wl: "write_loop fd buf w = Some (ok, w1)"
      by (auto simp: send_buffer_def write_full_poll_def split: option.splits)
    from h write_loop_harmless [OF refl _ _ wl] have ok: "ok" by blast
    with h wl have "st = SB_EX_OK" "w' = w1"
      by (auto simp: send_buffer_def write_full_poll_def)
    moreover from write_loop_wire [OF wl] ok have "wire w1 = wire w @ buf" by auto
    ultimately show "st = SB_EX_OK \<and> wire w' = wire w @ buf" by simp
  qed
  have succeeds: "(\<forall>x \<in> set (writes w). harmless_write x) \<and>
      (\<forall>x \<in> set (polls w). harmless_poll x) \<and>
      length buf \<le> room (writes w) \<and> blocked (writes w) \<le> count_list (polls w) PReady \<longrightarrow>
      (\<exists>w''. send_buffer fd buf w = Some (SB_EX_OK, w'') \<and> wire w'' = wire w @ buf)"
  proof
    assume h: "(\<forall>x \<in> set (writes w). harmless_write x) \<and>
      (\<forall>x \<in> set (polls w). harmless_poll x) \<and>
      length buf \<le> room (writes w) \<and> blocked (writes w) \<le> count_list (polls w) PReady"
    with write_loop_progress [OF refl, where w = w and fd = fd and p = buf] obtain w1 where
      wl: "write_loop fd buf w = Some (True, w1)" by blast
    then have "send_buffer fd buf w = Some (SB_EX_OK, w1)"
      by (simp add: send_buffer_def write_full_poll_def)
    moreover from write_loop_wire [OF wl] have "wire w1 = wire w @ buf" by auto
    ultimately show "\<exists>w''. send_buffer fd buf w = Some (SB_EX_OK, w'') \<and> wire w'' = wire w @ buf"
      by blast
  qed
  note link = send_buffer_loop [of fd buf w]
  note finished = write_loop_empty [of fd w]
  have partial: "p \<noteq> [] \<and> writes w = WRoom k # ws \<and> 0 < k \<longrightarrow>
      write_loop fd p w =
        write_loop fd (drop k p)
          (w\<lparr>writes := ws, wire := wire w @ take k p, trace := trace w @ [CWrite fd p]\<rparr>)"
    by (simp add: write_loop_advance)
  have interrupt: "p \<noteq> [] \<and> writes w = WErr EINTR # ws \<longrightarrow>
      write_loop fd p w =
        write_loop fd p (w\<lparr>writes := ws, errno_now := EINTR, trace := trace w @ [CWrite fd p]\<rparr>)"
    by (simp add: write_loop_interrupt)
  have would_block: "p \<noteq> [] \<and> writes w = WErr EAGAIN # ws \<and> polls w = PReady # ps \<longrightarrow>
      write_loop fd p w =
        write_loop fd p
          (w\<lparr>writes := ws, errno_now := EAGAIN, polls := ps,
             trace := trace w @ [CWrite fd p, CPoll fd POLLOUT (- 1)]\<rparr>)"
    using write_loop_ready by blast
  have quiet: "p \<noteq> [] \<and> writes w = WErr EAGAIN # ws \<and> polls w = PTimeout # ps \<longrightarrow>
      write_loop fd p w = write_loop fd p (w\<lparr>polls := ps\<rparr>)"
    using write_loop_quiet by blast
  have forever: "p \<noteq> [] \<and> writes w = WErr EAGAIN # ws \<and> polls w = [] \<longrightarrow>
      write_loop fd p w = None"
    by (simp add: write_loop_would_block poll_wait_none)
  have poll_error: "p \<noteq> [] \<and> writes w = WErr EAGAIN # ws \<and> polls w = PErr e # ps \<and> e \<noteq> EINTR \<longrightarrow>
      write_loop fd p w =
        Some (False,
              w\<lparr>writes := ws, errno_now := e, polls := ps,
                trace := trace w @ [CWrite fd p, CPoll fd POLLOUT (- 1)]\<rparr>)"
    using write_loop_poll_error by blast
  have error: "p \<noteq> [] \<and> writes w = WErr e # ws \<and> e \<noteq> EINTR \<and> e \<noteq> EAGAIN \<longrightarrow>
      write_loop fd p w =
        Some (False, w\<lparr>writes := ws, errno_now := e, trace := trace w @ [CWrite fd p]\<rparr>)"
    by (simp add: write_loop_error)
  have zero: "p \<noteq> [] \<and> writes w = WRoom 0 # ws \<longrightarrow>
      write_loop fd p w =
        Some (False, w\<lparr>writes := ws, wire := wire w, trace := trace w @ [CWrite fd p]\<rparr>)"
    by (simp add: write_loop_zero)
  show ?thesis
    by (intro conjI; fact)
qed

text \<open>
  A run with a partial write, a full buffer, an interrupted \<^verbatim>\<open>poll\<close> and an interrupted
  \<^verbatim>\<open>write\<close>: the hypotheses of the theorem hold of its answers, and it succeeds with the
  buffer on the wire. A run whose first \<^verbatim>\<open>write\<close> fails with another error fails.
\<close>

theorem send_all_or_fail_witness:
  "harmless_write (WRoom 2) \<and> harmless_write (WErr EAGAIN) \<and> harmless_write (WErr EINTR) \<and>
   harmless_write (WRoom 9) \<and> harmless_poll (PErr EINTR) \<and> harmless_poll PReady \<and>
   length ''hello'' \<le> room [WRoom 2, WErr EAGAIN, WErr EINTR, WRoom 9] \<and>
   blocked [WRoom 2, WErr EAGAIN, WErr EINTR, WRoom 9] \<le> count_list [PErr EINTR, PReady] PReady \<and>
   send_buffer 3 ''hello''
     (world0\<lparr>writes := [WRoom 2, WErr EAGAIN, WErr EINTR, WRoom 9], polls := [PErr EINTR, PReady]\<rparr>)
   = Some (SB_EX_OK, world0\<lparr>errno_now := EINTR, writes := [], polls := [], wire := ''hello'',
       trace := [CWrite 3 ''hello'', CWrite 3 ''llo'', CPoll 3 POLLOUT (- 1),
                 CPoll 3 POLLOUT (- 1), CWrite 3 ''llo'', CWrite 3 ''llo'']\<rparr>) \<and>
   send_buffer 3 ''hello'' (world0\<lparr>writes := [WErr (EOTHER 32), WRoom 9]\<rparr>)
   = Some (SB_EX_FAIL, world0\<lparr>errno_now := EOTHER 32, writes := [WRoom 9],
       trace := [CWrite 3 ''hello''], err_out := [MsgErrno ''send'' (EOTHER 32)]\<rparr>)"
proof -
  let ?w = "world0\<lparr>writes := [WRoom 2, WErr EAGAIN, WErr EINTR, WRoom 9], polls := [PErr EINTR, PReady]\<rparr>"
  let ?w' = "world0\<lparr>errno_now := EINTR, writes := [], polls := [], wire := ''hello'',
       trace := [CWrite 3 ''hello'', CWrite 3 ''llo'', CPoll 3 POLLOUT (- 1),
                 CPoll 3 POLLOUT (- 1), CWrite 3 ''llo'', CWrite 3 ''llo'']\<rparr>"
  let ?v = "world0\<lparr>writes := [WErr (EOTHER 32), WRoom 9]\<rparr>"
  have h: "(\<forall>x \<in> set (writes ?w). harmless_write x) \<and> (\<forall>x \<in> set (polls ?w). harmless_poll x) \<and>
      length ''hello'' \<le> room (writes ?w) \<and> blocked (writes ?w) \<le> count_list (polls ?w) PReady"
    by (simp add: world0_def)
  have r: "send_buffer 3 ''hello'' ?w = Some (SB_EX_OK, ?w')"
    by (simp add: send_buffer_def write_full_poll_def write_loop.simps poll_wait.simps
          sys_write_def sys_poll_def world0_def SB_EX_OK_def ERRNO_AGAIN_def)
  from send_all_or_fail [of 3 "''hello''" ?w SB_EX_OK ?w' "''hello''" 0 "[]" "[]" ESUCCESS] h r
  have ok: "wire ?w' = wire ?w @ ''hello''" by blast
  have e: "''hello'' \<noteq> [] \<and> writes ?v = WErr (EOTHER 32) # [WRoom 9] \<and>
           EOTHER 32 \<noteq> EINTR \<and> EOTHER 32 \<noteq> EAGAIN"
    by (simp add: world0_def)
  from send_all_or_fail [of 3 "''hello''" ?v SB_EX_OK ?w' "''hello''" 0 "[WRoom 9]" "[]" "EOTHER 32"] e
  have "write_loop 3 ''hello'' ?v =
          Some (False, ?v\<lparr>writes := [WRoom 9], errno_now := EOTHER 32,
                  trace := trace ?v @ [CWrite 3 ''hello'']\<rparr>)"
    and "send_buffer 3 ''hello'' ?v =
     (case write_loop 3 ''hello'' ?v of
        None \<Rightarrow> None
      | Some (ok, w1) \<Rightarrow>
          if ok then Some (SB_EX_OK, w1)
          else Some (SB_EX_FAIL, w1\<lparr>err_out := err_out w1 @ [MsgErrno ''send'' (errno_now w1)]\<rparr>))"
    by blast+
  then have f: "send_buffer 3 ''hello'' ?v =
       Some (SB_EX_FAIL, world0\<lparr>errno_now := EOTHER 32, writes := [WRoom 9],
         trace := [CWrite 3 ''hello''], err_out := [MsgErrno ''send'' (EOTHER 32)]\<rparr>)"
    by (simp add: world0_def)
  from h r f show ?thesis by (simp add: world0_def)
qed

section \<open>Closing a handle\<close>

lemmas parse_defs = parse_uint_def parse_int_def strtoul_def strtol_def scan_sign_def
  has_digit_def isdigit_c_def isspace_c_def digit_val_def ULONG_MAX_def UINT_MAX_def
  LONG_MAX_def LONG_MIN_def INT_MAX_def INT_MIN_def int_of_unsigned_def arg_is_flag_def

lemmas status_defs = SB_EX_OK_def SB_EX_FAIL_def SB_EX_USAGE_def SB_EX_TIMEOUT_def

lemma cmd_close_ok:
  assumes "cmd_close [h] w = (SB_EX_OK, w1)"
  obtains fd where "parse_int h = Inr fd" "0 \<le> fd" "fd \<notin> set (open_fds w1)"
proof -
  from assms obtain fd where p: "parse_int h = Inr fd" "\<not> fd < 0"
    by (auto simp: cmd_close_def status_defs split: sum.splits if_splits)
  with assms have "fst (sys_close fd (w\<lparr>errno_now := ESUCCESS\<rparr>)) = 0"
    and "w1 = snd (sys_close fd (w\<lparr>errno_now := ESUCCESS\<rparr>))"
    by (auto simp: cmd_close_def status_defs split: prod.splits if_splits)
  then have "fd \<notin> set (open_fds w1)"
    by (auto simp: sys_close_def Let_def split: if_splits option.splits)
  with p that show ?thesis by simp
qed

lemma cmd_close_not_open:
  assumes "parse_int h = Inr fd" "0 \<le> fd" "fd \<notin> set (open_fds w)"
  shows "cmd_close [h] w = (SB_EX_FAIL, w\<lparr>errno_now := EBADF, trace := trace w @ [CClose fd]\<rparr>)"
  using assms by (simp add: cmd_close_def sys_close_def)

text \<open>
  C7. When \<^verbatim>\<open>close\<close> of a handle has succeeded, the same command again returns exit
  status 1 (not 0, not 2): the descriptor is no longer open, the system call fails with
  \<^verbatim>\<open>EBADF\<close>, and nothing is closed.
\<close>

theorem close_twice_fails:
  assumes "cmd_close [h] w = (SB_EX_OK, w1)"
  shows "fst (cmd_close [h] w1) = SB_EX_FAIL \<and> SB_EX_FAIL = 1 \<and>
         open_fds (snd (cmd_close [h] w1)) = open_fds w1 \<and>
         errno_now (snd (cmd_close [h] w1)) = EBADF"
proof -
  from assms obtain fd where "parse_int h = Inr fd" "0 \<le> fd" "fd \<notin> set (open_fds w1)"
    by (rule cmd_close_ok)
  from cmd_close_not_open [OF this] show ?thesis by (simp add: SB_EX_FAIL_def)
qed

theorem close_twice_fails_witness:
  "cmd_close [''5''] world0
     = (SB_EX_OK, world0\<lparr>open_fds := [3, 4], trace := [CClose 5]\<rparr>) \<and>
   fst (cmd_close [''5''] (world0\<lparr>open_fds := [3, 4], trace := [CClose 5]\<rparr>)) = SB_EX_FAIL"
proof -
  have h: "cmd_close [''5''] world0
     = (SB_EX_OK, world0\<lparr>open_fds := [3, 4], trace := [CClose 5]\<rparr>)"
    by (simp add: cmd_close_def sys_close_def world0_def parse_defs)
  from close_twice_fails [OF h] h show ?thesis by simp
qed

text \<open>
  C8 as stated fails. After descriptor 5 was closed, closing it again and closing 77,
  which never was a handle, give the same status and the same (empty) diagnostics; and
  an identifier that is negative, out of the range of \<^verbatim>\<open>int\<close> or not a number gives the
  usage status, not the failure status.
\<close>

theorem close_invalid_handle_counterexample:
  "cmd_close [''5''] (world0\<lparr>open_fds := [3, 4], trace := [CClose 5]\<rparr>)
     = (SB_EX_FAIL, world0\<lparr>open_fds := [3, 4], errno_now := EBADF, trace := [CClose 5, CClose 5]\<rparr>) \<and>
   cmd_close [''77''] (world0\<lparr>open_fds := [3, 4], trace := [CClose 5]\<rparr>)
     = (SB_EX_FAIL, world0\<lparr>open_fds := [3, 4], errno_now := EBADF, trace := [CClose 5, CClose 77]\<rparr>) \<and>
   fst (cmd_close [''-1''] (world0\<lparr>open_fds := [3, 4], trace := [CClose 5]\<rparr>)) = SB_EX_USAGE \<and>
   fst (cmd_close [''99999999999''] (world0\<lparr>open_fds := [3, 4], trace := [CClose 5]\<rparr>)) = SB_EX_USAGE \<and>
   fst (cmd_close [''five''] (world0\<lparr>open_fds := [3, 4], trace := [CClose 5]\<rparr>)) = SB_EX_USAGE \<and>
   SB_EX_USAGE \<noteq> SB_EX_FAIL"
  by (simp add: cmd_close_def sys_close_def world0_def parse_defs status_defs print_usage_def)

text \<open>
  C8, as the code has it. For \<^verbatim>\<open>close\<close>, a handle that was closed before and a number
  that never was a handle give the same result: exit status 1 and no diagnostic. An
  argument that is not a number, is negative or does not fit an \<^verbatim>\<open>int\<close> is a usage error
  (exit status 2), not an operational failure.
\<close>

theorem close_bad_handle:
  "(parse_int h = Inr fd \<and> 0 \<le> fd \<and> fd \<notin> set (open_fds w) \<longrightarrow>
      cmd_close [h] w = (SB_EX_FAIL, w\<lparr>errno_now := EBADF, trace := trace w @ [CClose fd]\<rparr>)) \<and>
   ((\<forall>v. parse_int h = Inr v \<longrightarrow> v < 0) \<longrightarrow>
      cmd_close [h] w = (SB_EX_USAGE, print_usage w))"
proof (intro conjI impI)
  assume "parse_int h = Inr fd \<and> 0 \<le> fd \<and> fd \<notin> set (open_fds w)"
  then show "cmd_close [h] w = (SB_EX_FAIL, w\<lparr>errno_now := EBADF, trace := trace w @ [CClose fd]\<rparr>)"
    by (simp add: cmd_close_not_open)
next
  assume "\<forall>v. parse_int h = Inr v \<longrightarrow> v < 0"
  then show "cmd_close [h] w = (SB_EX_USAGE, print_usage w)"
    by (cases "parse_int h") (auto simp: cmd_close_def)
qed

theorem close_bad_handle_witness:
  "cmd_close [''77''] world0 = (SB_EX_FAIL, world0\<lparr>errno_now := EBADF, trace := [CClose 77]\<rparr>) \<and>
   cmd_close [''-1''] world0 = (SB_EX_USAGE, print_usage world0)"
proof -
  have a: "parse_int ''77'' = Inr 77 \<and> (0::int) \<le> 77 \<and> 77 \<notin> set (open_fds world0)"
    by (simp add: parse_defs world0_def)
  have b: "\<forall>v. parse_int ''-1'' = Inr v \<longrightarrow> v < 0"
    by (simp add: parse_defs)
  from close_bad_handle [of "''77''" 77 world0] a
  have "cmd_close [''77''] world0
          = (SB_EX_FAIL, world0\<lparr>errno_now := EBADF, trace := trace world0 @ [CClose 77]\<rparr>)"
    by blast
  moreover from close_bad_handle [of "''-1''" 0 world0] b
  have "cmd_close [''-1''] world0 = (SB_EX_USAGE, print_usage world0)"
    by blast
  ultimately show ?thesis by (simp add: world0_def)
qed

section \<open>Receiving\<close>

lemmas recv_eval = cmd_recv_def recv_read_def read_line_def read_bytes_def read_all_def
  read_line_loop.simps read_bytes_loop.simps read_all_loop.simps poll_wait.simps
  sys_poll_def sys_read_def recv_finish_def set_sh_var_def heap_ok_def size_t_def
  int_of_size_def world0_def usage_error_def print_usage_def builtin_error_def
  ERRNO_AGAIN_def

lemma line_copy_plain:
  "CHR 0x0A \<notin> set tmp \<Longrightarrow> length buf + length tmp \<le> cap \<Longrightarrow>
     line_copy w 0 tmp buf cap = Filled (buf @ tmp) cap"
  by (induction tmp arbitrary: buf) auto

subsection \<open>The length returned in the place of a status\<close>

text \<open>
  The helpers return either a status or \<^verbatim>\<open>(int)len\<close>, and \<^verbatim>\<open>cmd_recv\<close> compares the
  result with \<^verbatim>\<open>SB_EX_TIMEOUT\<close> (124) and \<^verbatim>\<open>SB_EX_FAIL\<close> (1) first. The runs below show
  what that does to 124 bytes and to one byte.
\<close>

lemma timeout_after_124_line:
  "cmd_recv [''-T'', ''100'', ''5'', ''out'']
     (world0\<lparr>polls := [PReady, PTimeout], reads := [RBytes (replicate 124 (CHR ''a''))]\<rparr>)
   = Some (SB_EX_TIMEOUT, world0\<lparr>polls := [], reads := [], vars := [(''out'', [])],
       trace := [CPoll 5 POLLIN 100, CRead 5 1024, CPoll 5 POLLIN 100]\<rparr>)"
  by (simp add: recv_eval parse_defs status_defs line_copy_plain)

lemma timeout_after_124_all:
  "cmd_recv [''-T'', ''100'', ''-mode'', ''all'', ''5'', ''out'']
     (world0\<lparr>polls := [PReady, PTimeout], reads := [RBytes (replicate 124 (CHR ''a''))]\<rparr>)
   = Some (SB_EX_TIMEOUT, world0\<lparr>polls := [], reads := [], vars := [(''out'', [])],
       trace := [CPoll 5 POLLIN 100, CRead 5 4096, CPoll 5 POLLIN 100]\<rparr>)"
  by (simp add: recv_eval parse_defs status_defs)

lemma timeout_after_124_bytes:
  "cmd_recv [''-T'', ''100'', ''-max'', ''200'', ''-mode'', ''bytes'', ''5'', ''out'']
     (world0\<lparr>polls := [PReady, PTimeout], reads := [RBytes (replicate 124 (CHR ''a''))]\<rparr>)
   = Some (SB_EX_TIMEOUT, world0\<lparr>polls := [], reads := [], vars := [(''out'', [])],
       trace := [CPoll 5 POLLIN 100, CRead 5 200, CPoll 5 POLLIN 100]\<rparr>)"
  by (simp add: recv_eval parse_defs status_defs)

lemma fail_after_1_line:
  "cmd_recv [''-T'', ''100'', ''5'', ''out'']
     (world0\<lparr>polls := [PReady, PTimeout], reads := [RBytes ''X'']\<rparr>)
   = Some (SB_EX_FAIL, world0\<lparr>polls := [], reads := [],
       trace := [CPoll 5 POLLIN 100, CRead 5 1024, CPoll 5 POLLIN 100]\<rparr>)"
  by (simp add: recv_eval parse_defs status_defs)

text \<open>
  C1, on the code. The peer sends 124 bytes without a newline and then nothing until the
  deadline of 100 ms has passed. In each of the three modes the command returns exit
  status 124 and sets the variable to the empty string, although 124 bytes were
  accumulated; with one byte accumulated it returns exit status 1.
\<close>

theorem recv_timeout_with_data:
  "cmd_recv [''-T'', ''100'', ''5'', ''out'']
     (world0\<lparr>polls := [PReady, PTimeout], reads := [RBytes (replicate 124 (CHR ''a''))]\<rparr>)
   = Some (SB_EX_TIMEOUT, world0\<lparr>polls := [], reads := [], vars := [(''out'', [])],
       trace := [CPoll 5 POLLIN 100, CRead 5 1024, CPoll 5 POLLIN 100]\<rparr>) \<and>
   cmd_recv [''-T'', ''100'', ''-mode'', ''all'', ''5'', ''out'']
     (world0\<lparr>polls := [PReady, PTimeout], reads := [RBytes (replicate 124 (CHR ''a''))]\<rparr>)
   = Some (SB_EX_TIMEOUT, world0\<lparr>polls := [], reads := [], vars := [(''out'', [])],
       trace := [CPoll 5 POLLIN 100, CRead 5 4096, CPoll 5 POLLIN 100]\<rparr>) \<and>
   cmd_recv [''-T'', ''100'', ''-max'', ''200'', ''-mode'', ''bytes'', ''5'', ''out'']
     (world0\<lparr>polls := [PReady, PTimeout], reads := [RBytes (replicate 124 (CHR ''a''))]\<rparr>)
   = Some (SB_EX_TIMEOUT, world0\<lparr>polls := [], reads := [], vars := [(''out'', [])],
       trace := [CPoll 5 POLLIN 100, CRead 5 200, CPoll 5 POLLIN 100]\<rparr>) \<and>
   cmd_recv [''-T'', ''100'', ''5'', ''out'']
     (world0\<lparr>polls := [PReady, PTimeout], reads := [RBytes ''X'']\<rparr>)
   = Some (SB_EX_FAIL, world0\<lparr>polls := [], reads := [],
       trace := [CPoll 5 POLLIN 100, CRead 5 1024, CPoll 5 POLLIN 100]\<rparr>) \<and>
   SB_EX_TIMEOUT = 124"
  using timeout_after_124_line timeout_after_124_all timeout_after_124_bytes fail_after_1_line
  by (simp add: SB_EX_TIMEOUT_def)

text \<open>
  C2, on the code. The peer sends the single byte \<open>X\<close> and closes. \<^verbatim>\<open>read_line\<close> returns
  the length 1, \<^verbatim>\<open>cmd_recv\<close> takes it for \<^verbatim>\<open>SB_EX_FAIL\<close>: the exit status is 1 and the
  variable is not assigned.
\<close>

theorem recv_line_single_byte_then_eof:
  "cmd_recv [''-mode'', ''line'', ''5'', ''out'']
     (world0\<lparr>polls := [PReady, PReady], reads := [RBytes ''X'', REof]\<rparr>)
   = Some (SB_EX_FAIL, world0\<lparr>polls := [], reads := [REof],
       trace := [CPoll 5 POLLIN (- 1), CRead 5 1024, CPoll 5 POLLIN (- 1), CRead 5 1024]\<rparr>) \<and>
   read_line 5 0 (- 1) (world0\<lparr>polls := [PReady, PReady], reads := [RBytes ''X'', REof]\<rparr>)
   = Some ((1, Some ''X''), world0\<lparr>polls := [], reads := [REof],
       trace := [CPoll 5 POLLIN (- 1), CRead 5 1024, CPoll 5 POLLIN (- 1), CRead 5 1024]\<rparr>) \<and>
   SB_EX_FAIL = 1"
  by (simp add: recv_eval parse_defs status_defs)

text \<open>
  C5, on the code. One \<^verbatim>\<open>read\<close> delivers \<open>a\<close>, newline, \<open>b\<close>, \<open>c\<close>, and the peer sends
  \<open>d\<close>, newline later. The first line-mode command stores \<open>a\<close> and the newline; after it
  the descriptor only holds \<open>d\<close> and the newline, which the second command stores. The
  bytes \<open>b\<close> and \<open>c\<close> were read and are in neither result.
\<close>

theorem recv_line_drops_rest_of_chunk:
  "cmd_recv [''-mode'', ''line'', ''5'', ''out'']
     (world0\<lparr>polls := [PReady, PReady],
       reads := [RBytes [CHR ''a'', CHR 0x0A, CHR ''b'', CHR ''c''], RBytes [CHR ''d'', CHR 0x0A]]\<rparr>)
   = Some (SB_EX_OK, world0\<lparr>polls := [PReady], reads := [RBytes [CHR ''d'', CHR 0x0A]],
       vars := [(''out'', [CHR ''a'', CHR 0x0A])],
       trace := [CPoll 5 POLLIN (- 1), CRead 5 1024]\<rparr>) \<and>
   cmd_recv [''-mode'', ''line'', ''5'', ''next'']
     (world0\<lparr>polls := [PReady], reads := [RBytes [CHR ''d'', CHR 0x0A]],
       vars := [(''out'', [CHR ''a'', CHR 0x0A])],
       trace := [CPoll 5 POLLIN (- 1), CRead 5 1024]\<rparr>)
   = Some (SB_EX_OK, world0\<lparr>polls := [], reads := [],
       vars := [(''next'', [CHR ''d'', CHR 0x0A]), (''out'', [CHR ''a'', CHR 0x0A])],
       trace := [CPoll 5 POLLIN (- 1), CRead 5 1024, CPoll 5 POLLIN (- 1), CRead 5 1024]\<rparr>)"
  by (simp add: recv_eval parse_defs status_defs)

subsection \<open>Bytes mode without a cap\<close>

text \<open>
  C3 as stated fails: without \<^verbatim>\<open>-max\<close> a bytes-mode command is not a usage error; it reads.
\<close>

theorem recv_bytes_no_cap_counterexample:
  "cmd_recv [''-mode'', ''bytes'', ''5'', ''out'']
     (world0\<lparr>polls := [PReady, PReady], reads := [RBytes ''hi'', REof]\<rparr>)
   = Some (SB_EX_OK, world0\<lparr>polls := [], reads := [REof], vars := [(''out'', ''hi'')],
       trace := [CPoll 5 POLLIN (- 1), CRead 5 4096, CPoll 5 POLLIN (- 1), CRead 5 4094]\<rparr>) \<and>
   SB_EX_OK \<noteq> SB_EX_USAGE"
  by (simp add: recv_eval parse_defs status_defs)

lemma recv_read_bytes_default:
  "recv_read M_BYTES fd 0 t w = recv_read M_BYTES fd 4096 t w"
  by (simp add: recv_read_def)

text \<open>
  C3, as the code has it. A command whose options give bytes mode and no cap (or a cap of
  zero) does the same as the command with the cap 4096, whatever the other arguments
  and the environment are.
\<close>

theorem recv_bytes_default_cap:
  assumes "recv_flags argv (- 1) 0 M_LINE = Inr (t, 0, M_BYTES, rest)"
      and "recv_flags argv' (- 1) 0 M_LINE = Inr (t, 4096, M_BYTES, rest)"
  shows "cmd_recv argv w = cmd_recv argv' w \<and>
         (\<forall>a var fd. rest = [a, var] \<and> parse_int a = Inr fd \<and> 0 \<le> fd \<longrightarrow>
            cmd_recv argv w =
              (case read_bytes fd 4096 t (w\<lparr>errno_now := ESUCCESS\<rparr>) of
                 None \<Rightarrow> None
               | Some ((rlen, buf), w1) \<Rightarrow> Some (recv_finish var rlen buf w1)))"
proof
  from assms show "cmd_recv argv w = cmd_recv argv' w"
    by (simp add: cmd_recv_def recv_read_bytes_default
          cong: list.case_cong sum.case_cong if_cong)
next
  from assms(1)
  show "\<forall>a var fd. rest = [a, var] \<and> parse_int a = Inr fd \<and> 0 \<le> fd \<longrightarrow>
            cmd_recv argv w =
              (case read_bytes fd 4096 t (w\<lparr>errno_now := ESUCCESS\<rparr>) of
                 None \<Rightarrow> None
               | Some ((rlen, buf), w1) \<Rightarrow> Some (recv_finish var rlen buf w1))"
    by (auto simp: cmd_recv_def recv_read_def)
qed

theorem recv_bytes_default_cap_witness:
  "recv_flags [''-mode'', ''bytes'', ''5'', ''out''] (- 1) 0 M_LINE
     = Inr (- 1, 0, M_BYTES, [''5'', ''out'']) \<and>
   recv_flags [''-max'', ''4096'', ''-mode'', ''bytes'', ''5'', ''out''] (- 1) 0 M_LINE
     = Inr (- 1, 4096, M_BYTES, [''5'', ''out'']) \<and>
   cmd_recv [''-mode'', ''bytes'', ''5'', ''out''] world0
     = cmd_recv [''-max'', ''4096'', ''-mode'', ''bytes'', ''5'', ''out''] world0 \<and>
   cmd_recv [''-max'', ''4096'', ''-mode'', ''bytes'', ''5'', ''out'']
     (world0\<lparr>polls := [PReady, PReady], reads := [RBytes ''hi'', REof]\<rparr>)
   = Some (SB_EX_OK, world0\<lparr>polls := [], reads := [REof], vars := [(''out'', ''hi'')],
       trace := [CPoll 5 POLLIN (- 1), CRead 5 4096, CPoll 5 POLLIN (- 1), CRead 5 4094]\<rparr>)"
proof -
  let ?w = "world0\<lparr>polls := [PReady, PReady], reads := [RBytes ''hi'', REof]\<rparr>"
  have a: "recv_flags [''-mode'', ''bytes'', ''5'', ''out''] (- 1) 0 M_LINE
     = Inr (- 1, 0, M_BYTES, [''5'', ''out''])"
    by (simp add: parse_defs)
  have b: "recv_flags [''-max'', ''4096'', ''-mode'', ''bytes'', ''5'', ''out''] (- 1) 0 M_LINE
     = Inr (- 1, 4096, M_BYTES, [''5'', ''out''])"
    by (simp add: parse_defs)
  have r: "cmd_recv [''-mode'', ''bytes'', ''5'', ''out''] ?w
     = Some (SB_EX_OK, world0\<lparr>polls := [], reads := [REof], vars := [(''out'', ''hi'')],
         trace := [CPoll 5 POLLIN (- 1), CRead 5 4096, CPoll 5 POLLIN (- 1), CRead 5 4094]\<rparr>)"
    by (simp add: recv_eval parse_defs status_defs)
  from recv_bytes_default_cap [OF a b, of world0] recv_bytes_default_cap [OF a b, of ?w] a b r
  show ?thesis by simp
qed

subsection \<open>Storing the received bytes\<close>

text \<open>
  When the helper has returned a buffer and a length that \<^verbatim>\<open>cmd_recv\<close> uses as a length
  (not negative, and neither of the two values it takes for a status), and the variable
  can be assigned, the command succeeds and the variable holds the received bytes up to
  the first NUL, or all of them when there is none.
\<close>

lemma recv_stores_up_to_nul:
  assumes "recv_flags argv (- 1) 0 M_LINE = Inr (t, mx, m, [a, var])"
      and "parse_int a = Inr fd" and "0 \<le> fd"
      and "recv_read m fd mx t (w\<lparr>errno_now := ESUCCESS\<rparr>) = Some ((rlen, Some buf), w1)"
      and "rlen \<noteq> SB_EX_TIMEOUT" and "rlen \<noteq> SB_EX_FAIL" and "0 \<le> rlen"
      and "heap_ok w1 (length (takeWhile (\<lambda>c. c \<noteq> CHR 0x00) (take (nat rlen) buf)) + 1)"
      and "var \<notin> set (unbindable w1)" and "var \<notin> set (readonly w1)"
  shows "cmd_recv argv w =
           Some (SB_EX_OK,
                 w1\<lparr>vars := (var, takeWhile (\<lambda>c. c \<noteq> CHR 0x00) (take (nat rlen) buf)) # vars w1\<rparr>)"
  using assms by (simp add: cmd_recv_def recv_finish_def set_sh_var_def)

text \<open>
  C9, on the code. A received sequence of five bytes with a NUL in the middle is stored
  up to the NUL and the command succeeds. A received sequence that is the single byte
  NUL is not stored at all and the exit status is 1; a received sequence of 124 bytes
  with a NUL as its third byte gives exit status 124 and the empty string in the
  variable, not the two bytes before the NUL.
\<close>

theorem recv_nul_sequence_by_length:
  "cmd_recv [''-mode'', ''line'', ''5'', ''out'']
     (world0\<lparr>polls := [PReady],
        reads := [RBytes [CHR ''a'', CHR ''b'', CHR 0x00, CHR ''c'', CHR 0x0A]]\<rparr>)
   = Some (SB_EX_OK, world0\<lparr>polls := [], reads := [], vars := [(''out'', ''ab'')],
       trace := [CPoll 5 POLLIN (- 1), CRead 5 1024]\<rparr>) \<and>
   cmd_recv [''-mode'', ''line'', ''5'', ''out'']
     (world0\<lparr>polls := [PReady, PReady], reads := [RBytes [CHR 0x00], REof]\<rparr>)
   = Some (SB_EX_FAIL, world0\<lparr>polls := [], reads := [REof],
       trace := [CPoll 5 POLLIN (- 1), CRead 5 1024, CPoll 5 POLLIN (- 1), CRead 5 1024]\<rparr>) \<and>
   cmd_recv [''-max'', ''124'', ''-mode'', ''bytes'', ''5'', ''out'']
     (world0\<lparr>polls := [PReady],
        reads := [RBytes (CHR ''a'' # CHR ''b'' # CHR 0x00 # replicate 121 (CHR ''c''))]\<rparr>)
   = Some (SB_EX_TIMEOUT, world0\<lparr>polls := [], reads := [], vars := [(''out'', [])],
       trace := [CPoll 5 POLLIN (- 1), CRead 5 124]\<rparr>) \<and>
   SB_EX_OK = 0 \<and> SB_EX_FAIL = 1 \<and> SB_EX_TIMEOUT = 124"
  by (simp add: recv_eval parse_defs status_defs)


section \<open>Connecting without blocking\<close>












section \<open>The deadline argument\<close>

text \<open>What \<^verbatim>\<open>parse_uint\<close> accepts: optional white space, an optional sign, then digits only.\<close>


lemmas accept_eval = cmd_accept_def accept_on_def sys_accept_def set_sh_var_int_def
  set_sh_var_def dec_int_def sys_close_def

lemma scan_digits_all:
  "scan_digits s acc = (v, []) \<Longrightarrow> \<forall>c \<in> set s. isdigit_c c"
  by (induction s arbitrary: acc) (auto split: if_splits)

lemma scan_sign_shape:
  "scan_sign s = (neg, t) \<Longrightarrow> s = t \<or> s = CHR ''+'' # t \<or> s = CHR ''-'' # t"
  by (auto simp: scan_sign_def split: list.splits if_splits)

lemma parse_uint_shape:
  assumes "parse_uint s = Inr u"
  shows "u \<le> UINT_MAX \<and>
         (\<exists>ds. ds \<noteq> [] \<and> (\<forall>c \<in> set ds. isdigit_c c) \<and>
            (dropWhile isspace_c s = ds \<or> dropWhile isspace_c s = CHR ''+'' # ds \<or>
             dropWhile isspace_c s = CHR ''-'' # ds))"
proof -
  obtain neg t where sg: "scan_sign (dropWhile isspace_c s) = (neg, t)"
    by (cases "scan_sign (dropWhile isspace_c s)")
  obtain v rest where sd: "scan_digits t 0 = (v, rest)" by (cases "scan_digits t 0")
  from assms have ne: "s \<noteq> []" by (auto simp: parse_uint_def split: if_splits)
  have hd: "has_digit t"
  proof (rule ccontr)
    assume "\<not> has_digit t"
    with sg have "strtoul s = (0, s, False)" by (simp add: strtoul_def)
    with assms ne show False by (simp add: parse_uint_def)
  qed
  with sg sd have st: "strtoul s =
      (if v > ULONG_MAX then (ULONG_MAX, rest, True)
       else ((if neg then (2 ^ 64 - v) mod 2 ^ 64 else v), rest, False))"
    by (simp add: strtoul_def)
  from st assms ne have r: "rest = []" and u: "u \<le> UINT_MAX"
    by (auto simp: parse_uint_def split: if_splits)
  from sd r have "\<forall>c \<in> set t. isdigit_c c" using scan_digits_all by blast
  moreover from hd have "t \<noteq> []" by (auto simp: has_digit_def)
  moreover note scan_sign_shape [OF sg]
  ultimately show ?thesis using u by blast
qed

text \<open>
  C10, on the code. The value 4294967295 is accepted and becomes \<^verbatim>\<open>timeout_ms = -1\<close>
  through the cast to \<^verbatim>\<open>int\<close>, which is the deadline of a command without \<^verbatim>\<open>-T\<close>:
  \<^verbatim>\<open>accept\<close> does not poll and \<^verbatim>\<open>recv\<close> waits through a quiet period. A negative number
  that \<^verbatim>\<open>strtoul\<close> wraps into range is accepted as well.
\<close>

theorem deadline_arg_wraps_to_infinite:
  "parse_uint ''4294967295'' = Inr 4294967295 \<and>
   accept_flags [''-T'', ''4294967295'', ''3'', ''c'', ''peer''] (- 1)
     = accept_flags [''3'', ''c'', ''peer''] (- 1) \<and>
   cmd_accept [''-T'', ''4294967295'', ''3'', ''c'', ''peer'']
     (world0\<lparr>polls := [PTimeout], accepts := [AConn 7 (Some (''127.0.0.1'', ''4242''))]\<rparr>)
   = Some (SB_EX_OK, world0\<lparr>polls := [PTimeout], open_fds := [7, 3, 4, 5],
       vars := [(''peer'', ''127.0.0.1:4242''), (''c'', ''7'')], trace := [CAccept 3]\<rparr>) \<and>
   cmd_recv [''-T'', ''4294967295'', ''5'', ''out'']
     (world0\<lparr>polls := [PTimeout, PReady], reads := [RBytes [CHR ''h'', CHR 0x0A]]\<rparr>)
   = Some (SB_EX_OK, world0\<lparr>polls := [], reads := [], vars := [(''out'', [CHR ''h'', CHR 0x0A])],
       trace := [CPoll 5 POLLIN (- 1), CRead 5 1024]\<rparr>) \<and>
   parse_uint ''-18446744073709551615'' = Inr 1"
  by (simp add: recv_eval accept_eval parse_defs status_defs dec_nat.simps)

text \<open>
  What the code does check. A \<^verbatim>\<open>-T\<close> value that \<^verbatim>\<open>parse_uint\<close> rejects (as it does
  \<^verbatim>\<open>-1\<close>) ends the option loop of each of the three commands with the usage status,
  and the command returns it having made no system call. An accepted value is at most
  \<^verbatim>\<open>UINT_MAX\<close> and is written as optional white space, an optional sign and digits; when
  it is below \<open>2 ^ 31\<close> it is the deadline in milliseconds.
\<close>

lemma deadline_arg_checked:
  "(parse_uint v = Inl e \<longrightarrow>
      connect_flags (''-T'' # v # rest) fam nb t = Inl () \<and>
      recv_flags (''-T'' # v # rest) t mx m = Inl () \<and>
      accept_flags (''-T'' # v # rest) t = Inl () \<and>
      cmd_connect gai (''-T'' # v # rest) w = Some (SB_EX_USAGE, w\<lparr>err_out := err_out w @ [Usage]\<rparr>) \<and>
      cmd_recv (''-T'' # v # rest) w = Some (SB_EX_USAGE, w\<lparr>err_out := err_out w @ [Usage]\<rparr>) \<and>
      cmd_accept (''-T'' # v # rest) w = Some (SB_EX_USAGE, w\<lparr>err_out := err_out w @ [Usage]\<rparr>)) \<and>
   (parse_uint v = Inr u \<longrightarrow>
      u \<le> UINT_MAX \<and>
      (\<exists>ds. ds \<noteq> [] \<and> (\<forall>c \<in> set ds. isdigit_c c) \<and>
         (dropWhile isspace_c v = ds \<or> dropWhile isspace_c v = CHR ''+'' # ds \<or>
          dropWhile isspace_c v = CHR ''-'' # ds)) \<and>
      (u < 2 ^ 31 \<longrightarrow>
         connect_flags (''-T'' # v # rest) fam nb t = connect_flags rest fam nb (int u) \<and>
         recv_flags (''-T'' # v # rest) t mx m = recv_flags rest (int u) mx m \<and>
         accept_flags (''-T'' # v # rest) t = accept_flags rest (int u))) \<and>
   parse_uint ''-1'' = Inl ERANGE"
proof (intro conjI impI)
  assume "parse_uint v = Inr u"
  then show "u \<le> UINT_MAX" using parse_uint_shape by blast
next
  assume "parse_uint v = Inr u"
  then show "\<exists>ds. ds \<noteq> [] \<and> (\<forall>c \<in> set ds. isdigit_c c) \<and>
         (dropWhile isspace_c v = ds \<or> dropWhile isspace_c v = CHR ''+'' # ds \<or>
          dropWhile isspace_c v = CHR ''-'' # ds)" using parse_uint_shape by blast
next
  show "parse_uint ''-1'' = Inl ERANGE" by (simp add: parse_defs)
qed (simp_all add: arg_is_flag_def cmd_connect_def cmd_recv_def cmd_accept_def usage_error_def
       print_usage_def int_of_unsigned_def)

lemma deadline_arg_checked_example:
  "cmd_accept [''-T'', ''abc'', ''3'', ''c''] world0
     = Some (SB_EX_USAGE, world0\<lparr>err_out := [Usage]\<rparr>) \<and>
   cmd_recv [''-T'', ''abc'', ''3'', ''c''] world0
     = Some (SB_EX_USAGE, world0\<lparr>err_out := [Usage]\<rparr>) \<and>
   accept_flags [''-T'', ''250'', ''3'', ''c''] (- 1) = Inr (250, [''3'', ''c''])"
proof -
  have a: "parse_uint ''abc'' = Inl EINVAL" by (simp add: parse_defs)
  have b: "parse_uint ''250'' = Inr 250" by (simp add: parse_defs)
  from deadline_arg_checked [of "''abc''" EINVAL "[''3'', ''c'']" AF_UNSPEC False "- 1" 0 M_LINE
      one_host world0 0] a
  have "cmd_accept [''-T'', ''abc'', ''3'', ''c''] world0
          = Some (SB_EX_USAGE, world0\<lparr>err_out := err_out world0 @ [Usage]\<rparr>)"
    and "cmd_recv [''-T'', ''abc'', ''3'', ''c''] world0
          = Some (SB_EX_USAGE, world0\<lparr>err_out := err_out world0 @ [Usage]\<rparr>)"
    by blast+
  moreover from deadline_arg_checked [of "''250''" EINVAL "[''3'', ''c'']" AF_UNSPEC False "- 1" 0
      M_LINE one_host world0 250] b
  have "accept_flags [''-T'', ''250'', ''3'', ''c''] (- 1) = accept_flags [''3'', ''c''] (int 250)"
    by simp
  ultimately show ?thesis by (simp add: world0_def parse_defs)
qed

end
